theory Spec2Isabelle
  imports Complex_Main "HOL-Library.Multiset"
begin

section \<open>Online Marketplace Management System: the transactional data layer\<close>

text \<open>
  A shallow embedding of \<^verbatim>\<open>src/Project File/final.cpp\<close>.

  Conventions of the model.
  \<^item> A C++ \<^verbatim>\<open>int\<close> is an \<open>int\<close> between \<open>INT_MIN\<close> and \<open>INT_MAX\<close>. Every arithmetic
    statement on an \<^verbatim>\<open>int\<close> that the model executes wraps around as the compiled
    program does: its result is \<open>wrap_int\<close> of the exact result, the 32-bit two's
    complement value.
  \<^item> A C++ \<^verbatim>\<open>double\<close> is a \<open>real\<close>: rounding is not modelled. The text form of a
    \<^verbatim>\<open>double\<close> (\<^verbatim>\<open>operator<<\<close> and \<^verbatim>\<open>std::stod\<close>) is a parameter of the persistence
    functions.
  \<^item> A \<^verbatim>\<open>std::vector\<close> is a list; a \<^verbatim>\<open>std::stack\<close> is a list whose head is the top; a
    \<^verbatim>\<open>std::queue\<close> is a list whose head is the front.
  \<^item> \<^verbatim>\<open>cout\<close> is a list of events, one constructor per output statement that matters;
    \<^verbatim>\<open>cin\<close> is the text still to be read, and the end of the text is the end of the
    input.
  \<^item> \<^verbatim>\<open>clearScreen()\<close>, \<^verbatim>\<open>printHeader\<close>, the time stamp of the receipt and the prompt
    that \<^verbatim>\<open>pause()\<close> prints touch only the screen and are left out. What \<^verbatim>\<open>pause()\<close>
    reads is part of the model.
\<close>

subsection \<open>Faults\<close>

datatype fault =
    BadIndex        \<comment> \<open>\<^verbatim>\<open>customers[currentCustomerIdx]\<close> out of range (undefined behaviour)\<close>
  | NeverReturns    \<comment> \<open>the rating prompt loops forever on an exhausted \<^verbatim>\<open>cin\<close>\<close>
  | InvalidArgument \<comment> \<open>\<^verbatim>\<open>std::invalid_argument\<close> from \<^verbatim>\<open>stoi\<close>/\<^verbatim>\<open>stod\<close>, never caught\<close>
  | OutOfRange      \<comment> \<open>\<^verbatim>\<open>std::out_of_range\<close> from \<^verbatim>\<open>stoi\<close>, never caught\<close>

definition INT_MAX :: int where
  "INT_MAX = 2147483647"

definition INT_MIN :: int where
  "INT_MIN = - 2147483648"

definition int_ok :: "int \<Rightarrow> bool" where
  "int_ok x \<longleftrightarrow> INT_MIN \<le> x \<and> x \<le> INT_MAX"

text \<open>
  The value that 32-bit two's complement arithmetic leaves for the exact result \<open>x\<close>:
  \<open>x\<close> itself when it is an \<^verbatim>\<open>int\<close>, and \<open>x\<close> shifted by a multiple of \<open>2^32\<close> into the
  range otherwise.
\<close>

definition wrap_int :: "int \<Rightarrow> int" where
  "wrap_int x = (x + 2147483648) mod 4294967296 - 2147483648"

subsection \<open>Product\<close>

record Product =
  id :: int
  name :: string
  price :: real
  category :: string
  quantity :: int
  sellerId :: int
  ratingSum :: real
  ratingCount :: int

text \<open>The parameterized constructor with its default arguments \<^verbatim>\<open>rSum = 0, rCount = 0\<close>.\<close>

definition Product_new :: "int \<Rightarrow> string \<Rightarrow> real \<Rightarrow> string \<Rightarrow> int \<Rightarrow> int \<Rightarrow> Product" where
  "Product_new i pname pprice pcat pqty sid =
     \<lparr>id = i, name = pname, price = pprice, category = pcat, quantity = pqty,
      sellerId = sid, ratingSum = 0, ratingCount = 0\<rparr>"

definition getAverageRating :: "Product \<Rightarrow> real" where
  "getAverageRating p =
     (if ratingCount p = 0 then 0 else ratingSum p / real_of_int (ratingCount p))"

text \<open>\<^verbatim>\<open>ratingSum += rate; ratingCount++;\<close>\<close>

definition addRating :: "Product \<Rightarrow> real \<Rightarrow> Product" where
  "addRating p rate =
     p\<lparr>ratingSum := ratingSum p + rate, ratingCount := wrap_int (ratingCount p + 1)\<rparr>"

text \<open>\<^verbatim>\<open>Product::operator<\<close>\<close>

definition less_Product :: "Product \<Rightarrow> Product \<Rightarrow> bool" where
  "less_Product p other \<longleftrightarrow> getAverageRating p < getAverageRating other"


subsection \<open>Seller, CartItem, Customer\<close>

record Seller =
  id :: int
  name :: string
  email :: string

record CartItem =
  product :: Product  \<comment> \<open>a copy of the product taken when the item was staged\<close>
  buyQty :: int

record Customer =
  id :: int
  name :: string
  address :: string
  phone :: string
  email :: string
  cartStack :: "CartItem list"  \<comment> \<open>\<^verbatim>\<open>stack<CartItem>\<close>, the head is the top\<close>

subsection \<open>The controller's state\<close>

record Marketplace =
  sellers :: "Seller list"
  customers :: "Customer list"
  products :: "Product list"
  productCounter :: int
  sellerCounter :: int
  customerCounter :: int
  currentSellerIdx :: int
  currentCustomerIdx :: int

text \<open>The member initialisers of \<^verbatim>\<open>class Marketplace\<close>, before the constructor loads.\<close>

definition Marketplace_init :: Marketplace where
  "Marketplace_init =
     \<lparr>sellers = [], customers = [], products = [],
      productCounter = 1, sellerCounter = 1, customerCounter = 1,
      currentSellerIdx = - 1, currentCustomerIdx = - 1\<rparr>"

subsection \<open>The terminal and the four files\<close>

datatype event =
    EmptyCartInfo              \<comment> \<open>\<^verbatim>\<open>[INFO] Cart is empty. Add items before checking out.\<close>\<close>
  | ReceiptHeader              \<comment> \<open>\<^verbatim>\<open>OFFICIAL RECEIPT\<close> and the date\<close>
  | ReceiptLine string int real  \<comment> \<open>snapshot name, \<^verbatim>\<open>buyQty\<close>, snapshot price times \<^verbatim>\<open>buyQty\<close>\<close>
  | RatePrompt string          \<comment> \<open>\<^verbatim>\<open>-> Rate <live name> (1-5):\<close>\<close>
  | InvalidRating              \<comment> \<open>\<^verbatim>\<open>[Invalid] Please enter 1-5:\<close>\<close>
  | StockError string          \<comment> \<open>\<^verbatim>\<open>[ERROR] Could not process <name>. Stock insufficient.\<close>\<close>
  | TotalPaid real             \<comment> \<open>\<^verbatim>\<open>TOTAL PAID: $<total>\<close>\<close>
  | ThankYou
  | InsufficientStock int      \<comment> \<open>\<^verbatim>\<open>[ERROR] Insufficient Stock! Only <n> available.\<close>\<close>
  | AddedToCart int string     \<comment> \<open>\<^verbatim>\<open>[SUCCESS] Added <qty> x <name> to cart.\<close>\<close>
  | ProductNotFound            \<comment> \<open>\<^verbatim>\<open>[ERROR] Product ID not found.\<close>\<close>
  | Removed string             \<comment> \<open>\<^verbatim>\<open>[REMOVED] <name> removed from cart.\<close>\<close>
  | CartAlreadyEmpty           \<comment> \<open>\<^verbatim>\<open>[INFO] Cart is already empty.\<close>\<close>
  | ProductTable "Product list"  \<comment> \<open>\<^verbatim>\<open>displayProductTable\<close>\<close>

text \<open>A file is its text; \<open>None\<close> is a file that does not exist.\<close>

record Disk =
  sellers_txt :: "string option"
  customers_txt :: "string option"
  products_txt :: "string option"
  carts_txt :: "string option"

record World =
  market :: Marketplace
  disk :: Disk
  cin :: string
  cout :: "event list"

subsection \<open>Numbers as text\<close>

definition digit_char :: "int \<Rightarrow> char" where
  "digit_char d = char_of (48 + d)"

function digits :: "int \<Rightarrow> string" where
  "digits n = (if n < 10 then [digit_char n] else digits (n div 10) @ [digit_char (n mod 10)])"
  by pat_completeness auto
termination
  by (relation "measure nat") auto

declare digits.simps [simp del]

text \<open>\<^verbatim>\<open>ostream << int\<close>: decimal, a minus sign for a negative number.\<close>

definition show_int :: "int \<Rightarrow> string" where
  "show_int i = (if i < 0 then CHR ''-'' # digits (- i) else digits i)"

text \<open>
  \<^verbatim>\<open>std::stoi\<close> (that is \<^verbatim>\<open>strtol\<close> in base 10): white space is skipped, then an
  optional sign, then the digits; what follows them is ignored. No digit at all is
  \<^verbatim>\<open>std::invalid_argument\<close>, a value outside \<^verbatim>\<open>int\<close> is \<^verbatim>\<open>std::out_of_range\<close>.
\<close>

definition isspace :: "char \<Rightarrow> bool" where
  "isspace c \<longleftrightarrow> c \<in> set [CHR '' '', CHR 0x09, CHR 0x0A, CHR 0x0B, CHR 0x0C, CHR 0x0D]"

definition isdigit :: "char \<Rightarrow> bool" where
  "isdigit c \<longleftrightarrow> 48 \<le> (of_char c :: int) \<and> (of_char c :: int) \<le> 57"

definition digit_val :: "char \<Rightarrow> int" where
  "digit_val c = of_char c - 48"

fun read_digits :: "string \<Rightarrow> int \<Rightarrow> int" where
  "read_digits [] acc = acc"
| "read_digits (c # cs) acc =
     (if isdigit c then read_digits cs (10 * acc + digit_val c) else acc)"

definition stoi :: "string \<Rightarrow> fault + int" where
  "stoi str =
     (let s = dropWhile isspace str;
          (negative, ds) =
            (case s of
               [] \<Rightarrow> (False, [])
             | c # cs \<Rightarrow>
                 if c = CHR ''-'' then (True, cs)
                 else if c = CHR ''+'' then (False, cs)
                 else (False, s))
      in case ds of
           [] \<Rightarrow> Inl InvalidArgument
         | d # _ \<Rightarrow>
             if \<not> isdigit d then Inl InvalidArgument
             else
               let v = read_digits ds 0;
                   r = (if negative then - v else v)
               in if int_ok r then Inr r else Inl OutOfRange)"

subsection \<open>saveData\<close>

text \<open>
  Each record is written as its fields with \<^verbatim>\<open>"|"\<close> between them and \<^verbatim>\<open>endl\<close> after
  them. \<open>fmt\<close> is the text \<^verbatim>\<open>ostream << double\<close> writes.
\<close>

definition seller_line :: "Seller \<Rightarrow> string" where
  "seller_line s = show_int (Seller.id s) @ ''|'' @ Seller.name s @ ''|'' @ Seller.email s @ [CHR 0x0A]"

definition customer_line :: "Customer \<Rightarrow> string" where
  "customer_line c =
     show_int (Customer.id c) @ ''|'' @ Customer.name c @ ''|'' @ address c @ ''|'' @ phone c @ ''|'' @
     Customer.email c @ [CHR 0x0A]"

definition product_line :: "(real \<Rightarrow> string) \<Rightarrow> Product \<Rightarrow> string" where
  "product_line fmt p =
     show_int (Product.id p) @ ''|'' @ Product.name p @ ''|'' @ fmt (price p) @ ''|'' @ category p @ ''|'' @
     show_int (quantity p) @ ''|'' @ show_int (sellerId p) @ ''|'' @ fmt (ratingSum p) @ ''|'' @
     show_int (ratingCount p) @ [CHR 0x0A]"

text \<open>
  The loop over \<^verbatim>\<open>tempStack\<close>, a copy of the customer's stack: one line for the top,
  then the rest after \<^verbatim>\<open>pop()\<close>.
\<close>

fun cart_lines :: "int \<Rightarrow> CartItem list \<Rightarrow> string" where
  "cart_lines c_id [] = []"
| "cart_lines c_id (item # tempStack) =
     (show_int c_id @ ''|'' @ show_int (Product.id (product item)) @ ''|'' @ show_int (buyQty item) @
      [CHR 0x0A]) @ cart_lines c_id tempStack"

definition saveData :: "(real \<Rightarrow> string) \<Rightarrow> Marketplace \<Rightarrow> Disk" where
  "saveData fmt m =
     \<lparr>sellers_txt = Some (concat (map seller_line (sellers m))),
      customers_txt = Some (concat (map customer_line (customers m))),
      products_txt = Some (concat (map (product_line fmt) (products m))),
      carts_txt = Some (concat (map (\<lambda>c. cart_lines (Customer.id c) (cartStack c)) (customers m)))\<rparr>"

subsection \<open>loadData\<close>

text \<open>
  \<^verbatim>\<open>while (getline(stream, segment, delim)) data.push_back(segment);\<close> on the text
  still in the stream, with the characters of the segment read so far. \<^verbatim>\<open>getline\<close>
  fails, and ends the loop, only when it meets the end of the text before any
  character: text that ends in the delimiter has no empty last segment.
\<close>

fun getline_all :: "char \<Rightarrow> string \<Rightarrow> string \<Rightarrow> string list" where
  "getline_all delim [] segment = (if segment = [] then [] else [segment])"
| "getline_all delim (c # cs) segment =
     (if c = delim then segment # getline_all delim cs []
      else getline_all delim cs (segment @ [c]))"

text \<open>
  The four loops over the lines of a file. A line with too few fields is skipped; an
  exception of \<^verbatim>\<open>stoi\<close> or \<^verbatim>\<open>stod\<close> is not caught and ends the load.
\<close>

fun load_sellers :: "string list \<Rightarrow> Marketplace \<Rightarrow> fault + Marketplace" where
  "load_sellers [] m = Inr m"
| "load_sellers (line # lines) m =
     (let data = getline_all CHR ''|'' line [] in
      if length data \<ge> 3 then
        case stoi (data ! 0) of
          Inl f \<Rightarrow> Inl f
        | Inr i \<Rightarrow>
            let m1 = m\<lparr>sellers := sellers m @ [\<lparr>Seller.id = i, name = data ! 1, email = data ! 2\<rparr>]\<rparr>
            in if i \<ge> sellerCounter m1 then load_sellers lines (m1\<lparr>sellerCounter := wrap_int (i + 1)\<rparr>)
               else load_sellers lines m1
      else load_sellers lines m)"

fun load_customers :: "string list \<Rightarrow> Marketplace \<Rightarrow> fault + Marketplace" where
  "load_customers [] m = Inr m"
| "load_customers (line # lines) m =
     (let data = getline_all CHR ''|'' line [] in
      if length data \<ge> 5 then
        case stoi (data ! 0) of
          Inl f \<Rightarrow> Inl f
        | Inr i \<Rightarrow>
            let m1 = m\<lparr>customers := customers m @
                       [\<lparr>Customer.id = i, name = data ! 1, address = data ! 2, phone = data ! 3,
                         email = data ! 4, cartStack = []\<rparr>]\<rparr>
            in if i \<ge> customerCounter m1 then load_customers lines (m1\<lparr>customerCounter := wrap_int (i + 1)\<rparr>)
               else load_customers lines m1
      else load_customers lines m)"

text \<open>
  The arguments of the constructor call
  \<^verbatim>\<open>Product(id, data[1], stod(data[2]), data[3], stoi(data[4]), stoi(data[5]), stod(data[6]),
  stoi(data[7]))\<close>, here from left to right. \<open>stod\<close> is \<^verbatim>\<open>std::stod\<close>.
\<close>

definition parse_product ::
  "(string \<Rightarrow> fault + real) \<Rightarrow> int \<Rightarrow> string list \<Rightarrow> fault + Product" where
  "parse_product stod i data =
     (case stod (data ! 2) of Inl f \<Rightarrow> Inl f | Inr pprice \<Rightarrow>
      case stoi (data ! 4) of Inl f \<Rightarrow> Inl f | Inr pqty \<Rightarrow>
      case stoi (data ! 5) of Inl f \<Rightarrow> Inl f | Inr sid \<Rightarrow>
      case stod (data ! 6) of Inl f \<Rightarrow> Inl f | Inr rSum \<Rightarrow>
      case stoi (data ! 7) of Inl f \<Rightarrow> Inl f | Inr rCount \<Rightarrow>
        Inr \<lparr>Product.id = i, name = data ! 1, price = pprice, category = data ! 3,
             quantity = pqty, sellerId = sid, ratingSum = rSum, ratingCount = rCount\<rparr>)"

fun load_products ::
  "(string \<Rightarrow> fault + real) \<Rightarrow> string list \<Rightarrow> Marketplace \<Rightarrow> fault + Marketplace" where
  "load_products stod [] m = Inr m"
| "load_products stod (line # lines) m =
     (let data = getline_all CHR ''|'' line [] in
      if length data \<ge> 8 then
        case stoi (data ! 0) of
          Inl f \<Rightarrow> Inl f
        | Inr i \<Rightarrow>
            (case parse_product stod i data of
               Inl f \<Rightarrow> Inl f
             | Inr p \<Rightarrow>
                 let m1 = m\<lparr>products := products m @ [p]\<rparr>
                 in if i \<ge> productCounter m1
                    then load_products stod lines (m1\<lparr>productCounter := wrap_int (i + 1)\<rparr>)
                    else load_products stod lines m1)
      else load_products stod lines m)"

text \<open>The index of the first element with a property: a loop that ends at \<^verbatim>\<open>break\<close>.\<close>

fun locate :: "('a \<Rightarrow> bool) \<Rightarrow> 'a list \<Rightarrow> nat option" where
  "locate P [] = None"
| "locate P (x # xs) = (if P x then Some 0 else map_option Suc (locate P xs))"

text \<open>
  A cart line is pushed on the stack of the first customer with its customer id, as a
  copy of the first product with its product id, when both exist; otherwise it is
  dropped.
\<close>

fun load_carts :: "string list \<Rightarrow> Marketplace \<Rightarrow> fault + Marketplace" where
  "load_carts [] m = Inr m"
| "load_carts (line # lines) m =
     (let data = getline_all CHR ''|'' line [] in
      if length data \<ge> 3 then
        case stoi (data ! 0) of Inl f \<Rightarrow> Inl f | Inr c_id \<Rightarrow>
        case stoi (data ! 1) of Inl f \<Rightarrow> Inl f | Inr p_id \<Rightarrow>
        case stoi (data ! 2) of Inl f \<Rightarrow> Inl f | Inr qty \<Rightarrow>
          (case (locate (\<lambda>c. Customer.id c = c_id) (customers m),
                 List.find (\<lambda>p. Product.id p = p_id) (products m)) of
             (Some k, Some targetProd) \<Rightarrow>
               let c = customers m ! k;
                   item = \<lparr>product = targetProd, buyQty = qty\<rparr>
               in load_carts lines
                    (m\<lparr>customers := (customers m)[k := c\<lparr>cartStack := item # cartStack c\<rparr>]\<rparr>)
           | _ \<Rightarrow> load_carts lines m)
      else load_carts lines m)"

text \<open>\<^verbatim>\<open>if (file.is_open()) { while (getline(file, line)) ... }\<close>\<close>

definition load_file ::
  "string option \<Rightarrow> (string list \<Rightarrow> Marketplace \<Rightarrow> fault + Marketplace) \<Rightarrow> Marketplace \<Rightarrow>
   fault + Marketplace" where
  "load_file file loader m =
     (case file of None \<Rightarrow> Inr m | Some content \<Rightarrow> loader (getline_all (CHR 0x0A) content []) m)"

definition loadData ::
  "(string \<Rightarrow> fault + real) \<Rightarrow> Disk \<Rightarrow> Marketplace \<Rightarrow> fault + Marketplace" where
  "loadData stod d m =
     (case load_file (sellers_txt d) load_sellers m of Inl f \<Rightarrow> Inl f | Inr m1 \<Rightarrow>
      case load_file (customers_txt d) load_customers m1 of Inl f \<Rightarrow> Inl f | Inr m2 \<Rightarrow>
      case load_file (products_txt d) (load_products stod) m2 of Inl f \<Rightarrow> Inl f | Inr m3 \<Rightarrow>
      load_file (carts_txt d) load_carts m3)"

subsection \<open>processCheckout\<close>

text \<open>
  \<^verbatim>\<open>cin.ignore(numeric_limits<streamsize>::max(), '\n')\<close>: the rest of the line is
  discarded, with the line break that ends it.
\<close>

definition ignore_line :: "string \<Rightarrow> string" where
  "ignore_line inp = drop 1 (dropWhile (\<lambda>c. c \<noteq> CHR 0x0A) inp)"

text \<open>
  \<^verbatim>\<open>pause()\<close>: \<^verbatim>\<open>cin.ignore(numeric_limits<streamsize>::max(), '\n'); cin.get();\<close>
  discards the rest of the line and then one more character. At the end of the input
  there is nothing to discard.
\<close>

definition pause :: "string \<Rightarrow> string" where
  "pause inp = drop 1 (ignore_line inp)"

text \<open>
  \<^verbatim>\<open>cin >> r\<close> for an \<^verbatim>\<open>int r\<close>: white space is skipped, then an optional sign and
  the digits that follow it are taken from the stream. The read succeeds when there is
  at least one digit and the value is an \<^verbatim>\<open>int\<close> (as for \<^verbatim>\<open>std::stoi\<close>); the result
  is the value read, if the read succeeded, and the text left in the stream.
\<close>

definition extract_int :: "string \<Rightarrow> int option \<times> string" where
  "extract_int inp =
     (let s = dropWhile isspace inp;
          body = (case s of
                    [] \<Rightarrow> []
                  | c # cs \<Rightarrow> if c = CHR ''-'' \<or> c = CHR ''+'' then cs else s)
      in (case stoi s of Inl f \<Rightarrow> None | Inr r \<Rightarrow> Some r, dropWhile isdigit body))"

text \<open>
  The rating prompt: \<^verbatim>\<open>while (true) { if (cin >> r && r >= 1 && r <= 5) { ...; break; }
  else { cout << "[Invalid]"; cin.clear(); cin.ignore(..., '\n'); } }\<close>.
  When only white space is left of the input every read fails and the loop never ends:
  \<open>NeverReturns\<close>. The function returns the accepted rating; the caller applies
  \<^verbatim>\<open>addRating\<close>.
\<close>

function rating_loop :: "string \<Rightarrow> event list \<Rightarrow> fault + (int \<times> string \<times> event list)" where
  "rating_loop inp out =
     (if dropWhile isspace inp = [] then Inl NeverReturns
      else
        case extract_int inp of
          (Some r, rest) \<Rightarrow>
            if 1 \<le> r \<and> r \<le> 5 then Inr (r, rest, out)
            else rating_loop (ignore_line rest) (out @ [InvalidRating])
        | (None, rest) \<Rightarrow> rating_loop (ignore_line rest) (out @ [InvalidRating]))"
  by pat_completeness auto
termination
proof (relation "measure (\<lambda>(inp, out). length inp)")
  have rest: "length (snd (extract_int inp)) \<le> length inp" for inp
  proof -
    have "length (dropWhile isdigit (case s of [] \<Rightarrow> []
            | c # cs \<Rightarrow> if c = CHR ''-'' \<or> c = CHR ''+'' then cs else s)) \<le> length s" for s
      by (cases s) (auto intro: order_trans [OF length_dropWhile_le])
    from order_trans [OF this length_dropWhile_le [of isspace inp]]
    show ?thesis by (simp add: extract_int_def Let_def)
  qed
  have shorter: "length (ignore_line (snd (extract_int inp))) < length inp"
    if "dropWhile isspace inp \<noteq> []" for inp
  proof (cases "snd (extract_int inp)")
    case Nil
    with that show ?thesis by (cases inp) (simp_all add: ignore_line_def)
  next
    case (Cons c cs)
    have "length (ignore_line (c # cs)) < length (c # cs)"
      using length_dropWhile_le [of "\<lambda>c. c \<noteq> CHR 0x0A" cs]
      by (auto simp: ignore_line_def)
    with Cons rest [of inp] show ?thesis by simp
  qed
  show "wf (measure (\<lambda>(inp, out). length inp))" by simp
  show "((ignore_line rest, out @ [InvalidRating]), inp, out) \<in> measure (\<lambda>(inp, out). length inp)"
    if "dropWhile isspace inp \<noteq> []" "(x, rest) = extract_int inp" for inp out x rest
    using shorter [OF that(1)] that(2) [symmetric] by simp
  show "((ignore_line rest, out @ [InvalidRating]), inp, out) \<in> measure (\<lambda>(inp, out). length inp)"
    if "dropWhile isspace inp \<noteq> []" "(x, rest) = extract_int inp" for inp out x rest
    using shorter [OF that(1)] that(2) [symmetric] by simp
qed

declare rating_loop.simps [simp del]

text \<open>
  The loop \<^verbatim>\<open>for (auto &p : products)\<close> for one queued item: the first product with
  the item's id is the live product, and the loop ends there (\<^verbatim>\<open>break\<close>). \<open>tot\<close> is
  the local variable \<^verbatim>\<open>total\<close>.
\<close>

fun update_stock ::
  "CartItem \<Rightarrow> Product list \<Rightarrow> real \<Rightarrow> string \<Rightarrow> event list \<Rightarrow>
   fault + (Product list \<times> real \<times> string \<times> event list)" where
  "update_stock item [] tot inp out = Inr ([], tot, inp, out)"
| "update_stock item (p # ps) tot inp out =
     (if Product.id p = Product.id (product item) then
        if buyQty item \<le> quantity p then
          let p1 = p\<lparr>quantity := wrap_int (quantity p - buyQty item)\<rparr>;
              lineTotal = price (product item) * real_of_int (buyQty item)
          in case rating_loop inp
               (out @ [ReceiptLine (Product.name (product item)) (buyQty item) lineTotal,
                       RatePrompt (Product.name p1)]) of
               Inl f \<Rightarrow> Inl f
             | Inr (r, inp', out') \<Rightarrow>
                 Inr (addRating p1 (real_of_int r) # ps, tot + lineTotal, inp', out')
        else Inr (p # ps, tot, inp, out @ [StockError (Product.name (product item))])
      else
        case update_stock item ps tot inp out of
          Inl f \<Rightarrow> Inl f
        | Inr (ps', tot', inp', out') \<Rightarrow> Inr (p # ps', tot', inp', out'))"

text \<open>\<^verbatim>\<open>while (!checkoutQueue.empty()) { item = front(); pop(); ... }\<close>\<close>

fun process_queue ::
  "CartItem list \<Rightarrow> Product list \<Rightarrow> real \<Rightarrow> string \<Rightarrow> event list \<Rightarrow>
   fault + (Product list \<times> real \<times> string \<times> event list)" where
  "process_queue [] ps tot inp out = Inr (ps, tot, inp, out)"
| "process_queue (item # checkoutQueue) ps tot inp out =
     (case update_stock item ps tot inp out of
        Inl f \<Rightarrow> Inl f
      | Inr (ps', tot', inp', out') \<Rightarrow> process_queue checkoutQueue ps' tot' inp' out')"

text \<open>
  \<^verbatim>\<open>while (!cartStack.empty()) { checkoutQueue.push(cartStack.top()); cartStack.pop(); }\<close>
  on the pair of the stack and the queue; \<^verbatim>\<open>queue::push\<close> appends at the back.
\<close>

fun transfer :: "CartItem list \<Rightarrow> CartItem list \<Rightarrow> CartItem list \<times> CartItem list" where
  "transfer [] checkoutQueue = ([], checkoutQueue)"
| "transfer (item # stack) checkoutQueue = transfer stack (checkoutQueue @ [item])"

definition processCheckout :: "(real \<Rightarrow> string) \<Rightarrow> World \<Rightarrow> fault + World" where
  "processCheckout fmt w =
     (let m = market w; i = currentCustomerIdx m in
      if i < 0 \<or> int (length (customers m)) \<le> i then Inl BadIndex
      else
        let c = customers m ! nat i in
        if cartStack c = [] then
          Inr (w\<lparr>cin := pause (cin w), cout := cout w @ [EmptyCartInfo]\<rparr>)
        else
          let (stack', checkoutQueue) = transfer (cartStack c) [];
              cs' = (customers m)[nat i := c\<lparr>cartStack := stack'\<rparr>]
          in case process_queue checkoutQueue (products m) 0 (cin w) (cout w @ [ReceiptHeader]) of
               Inl f \<Rightarrow> Inl f
             | Inr (ps', tot, inp', out') \<Rightarrow>
                 let m' = m\<lparr>customers := cs', products := ps'\<rparr>
                 in Inr \<lparr>market = m', disk = saveData fmt m', cin = pause inp',
                         cout = out' @ [TotalPaid tot, ThankYou]\<rparr>)"

subsection \<open>The cart operations of customerMenu\<close>

text \<open>
  Choice 4, "Add Product to Cart", with the product id and the quantity already read:
  the loop over the products stops at the first product with that id. The operation
  ends with \<^verbatim>\<open>pause()\<close>.
\<close>

fun find_for_cart :: "int \<Rightarrow> int \<Rightarrow> Product list \<Rightarrow> CartItem option \<times> event list" where
  "find_for_cart p_id qty [] = (None, [ProductNotFound])"
| "find_for_cart p_id qty (p # ps) =
     (if Product.id p = p_id then
        if qty > quantity p then (None, [InsufficientStock (quantity p)])
        else (Some \<lparr>product = p, buyQty = qty\<rparr>, [AddedToCart qty (Product.name p)])
      else find_for_cart p_id qty ps)"

definition addToCart :: "(real \<Rightarrow> string) \<Rightarrow> int \<Rightarrow> int \<Rightarrow> World \<Rightarrow> fault + World" where
  "addToCart fmt p_id qty w =
     (let m = market w; i = currentCustomerIdx m in
      if i < 0 \<or> int (length (customers m)) \<le> i then Inl BadIndex
      else
        let c = customers m ! nat i in
        case find_for_cart p_id qty (products m) of
          (None, evs) \<Rightarrow> Inr (w\<lparr>cin := pause (cin w), cout := cout w @ evs\<rparr>)
        | (Some item, evs) \<Rightarrow>
            let m' = m\<lparr>customers := (customers m)[nat i := c\<lparr>cartStack := item # cartStack c\<rparr>]\<rparr>
            in Inr (w\<lparr>market := m', disk := saveData fmt m', cin := pause (cin w),
                     cout := cout w @ evs\<rparr>))"

text \<open>Choice 6, "Undo Last Item", which ends with \<^verbatim>\<open>pause()\<close> as well.\<close>

definition undoLast :: "(real \<Rightarrow> string) \<Rightarrow> World \<Rightarrow> fault + World" where
  "undoLast fmt w =
     (let m = market w; i = currentCustomerIdx m in
      if i < 0 \<or> int (length (customers m)) \<le> i then Inl BadIndex
      else
        let c = customers m ! nat i in
        case cartStack c of
          [] \<Rightarrow> Inr (w\<lparr>cin := pause (cin w), cout := cout w @ [CartAlreadyEmpty]\<rparr>)
        | item # rest \<Rightarrow>
            let m' = m\<lparr>customers := (customers m)[nat i := c\<lparr>cartStack := rest\<rparr>]\<rparr>
            in Inr (w\<lparr>market := m', disk := saveData fmt m', cin := pause (cin w),
                     cout := cout w @ [Removed (Product.name (product item))]\<rparr>))"

text \<open>
  A customer session as a list of actions. \<open>Login i\<close> is a \<^verbatim>\<open>loginCustomer\<close> that
  finds the customer at index \<open>i\<close> (and changes nothing when there is no such
  customer); \<open>Typed s\<close> makes \<open>s\<close> the input that waits when the next operation starts,
  after the menu has read the choice and, for add-to-cart, the product id and the
  quantity.
\<close>

datatype action = Login nat | Typed string | AddToCart int int | UndoLast | Checkout

fun step :: "(real \<Rightarrow> string) \<Rightarrow> World \<Rightarrow> action \<Rightarrow> fault + World" where
  "step fmt w (Login i) =
     (if i < length (customers (market w))
      then Inr (w\<lparr>market := (market w)\<lparr>currentCustomerIdx := int i\<rparr>\<rparr>)
      else Inr w)"
| "step fmt w (Typed s) = Inr (w\<lparr>cin := s\<rparr>)"
| "step fmt w (AddToCart p_id qty) = addToCart fmt p_id qty w"
| "step fmt w UndoLast = undoLast fmt w"
| "step fmt w Checkout = processCheckout fmt w"

fun run :: "(real \<Rightarrow> string) \<Rightarrow> World \<Rightarrow> action list \<Rightarrow> fault + World" where
  "run fmt w [] = Inr w"
| "run fmt w (a # as) = (case step fmt w a of Inl f \<Rightarrow> Inl f | Inr w' \<Rightarrow> run fmt w' as)"

subsection \<open>showTopRatedProducts\<close>

text \<open>
  \<^verbatim>\<open>std::priority_queue<Product>\<close> belongs to the C++ library and is modelled by its
  contract. The queue holds a bag of products (here a list, in no particular order);
  \<^verbatim>\<open>top()\<close> is an element of the queue that is not less, by \<^verbatim>\<open>Product::operator<\<close>, than
  any element of the queue; \<^verbatim>\<open>pop()\<close> removes it. Which of several greatest elements
  is on top depends on the library's heap and is left open, so draining the queue is a
  relation: \<open>pq_extract pq temp\<close> holds when the loop
  \<^verbatim>\<open>while (!pq.empty()) { temp.push_back(pq.top()); pq.pop(); }\<close> can fill \<open>temp\<close> so.
\<close>

definition pq_push :: "Product \<Rightarrow> Product list \<Rightarrow> Product list" where
  "pq_push p pq = p # pq"

inductive pq_extract :: "Product list \<Rightarrow> Product list \<Rightarrow> bool" where
  pq_empty: "pq_extract [] []"
| pq_top: "x \<in> set pq \<Longrightarrow> \<forall>y \<in> set pq. \<not> less_Product x y \<Longrightarrow>
           pq_extract (remove1 x pq) temp \<Longrightarrow> pq_extract pq (x # temp)"

code_pred pq_extract .

text \<open>
  \<^verbatim>\<open>for (const auto& p : products) pq.push(p);\<close>, the extraction loop,
  \<^verbatim>\<open>displayProductTable(temp)\<close> and \<^verbatim>\<open>pause()\<close>.
\<close>

inductive showTopRatedProducts :: "World \<Rightarrow> World \<Rightarrow> bool" where
  "pq_extract (fold pq_push (products (market w)) []) temp \<Longrightarrow>
   showTopRatedProducts w (w\<lparr>cin := pause (cin w), cout := cout w @ [ProductTable temp]\<rparr>)"

subsection \<open>Notions used in the statements\<close>

text \<open>The session's customer index is a valid index, as after \<^verbatim>\<open>loginCustomer\<close>.\<close>

definition logged_in :: "World \<Rightarrow> bool" where
  "logged_in w \<longleftrightarrow>
     0 \<le> currentCustomerIdx (market w) \<and>
     currentCustomerIdx (market w) < int (length (customers (market w)))"

text \<open>The ledger of the session's customer, newest item first.\<close>

definition current_cart :: "World \<Rightarrow> CartItem list" where
  "current_cart w = cartStack (customers (market w) ! nat (currentCustomerIdx (market w)))"

text \<open>
  The product names of the receipt's lines, in the order printed: a line that was paid
  and a line that failed for stock both name their item.
\<close>

fun line_name :: "event \<Rightarrow> string list" where
  "line_name (ReceiptLine n q t) = [n]"
| "line_name (StockError n) = [n]"
| "line_name e = []"

definition receipt_names :: "event list \<Rightarrow> string list" where
  "receipt_names out = concat (map line_name out)"

text \<open>
  One turn of the queue loop, on the state that the turns before it have left: the
  products, the total, the input and the output. A fault before it is the result.
\<close>

definition queue_turn ::
  "CartItem \<Rightarrow> fault + (Product list \<times> real \<times> string \<times> event list) \<Rightarrow>
   fault + (Product list \<times> real \<times> string \<times> event list)" where
  "queue_turn item s =
     (case s of Inl f \<Rightarrow> Inl f | Inr (ps, tot, inp, out) \<Rightarrow> update_stock item ps tot inp out)"

text \<open>What a successful line does to the live product: stock down by \<open>b\<close>, one rating \<open>r\<close>.\<close>

definition purchase :: "Product \<Rightarrow> int \<Rightarrow> int \<Rightarrow> Product" where
  "purchase p b r = addRating (p\<lparr>quantity := wrap_int (quantity p - b)\<rparr>) (real_of_int r)"

text \<open>
  A property \<open>I n\<close> of products, for \<open>n\<close> items still in the queue, that the queue loop
  keeps: an item that leaves the product alone takes \<open>I (n + 1)\<close> to \<open>I n\<close>, and so does
  every purchase within stock of a quantity \<open>b\<close> with \<open>B b\<close> and a rating in 1..5.
\<close>

definition keeps :: "(int \<Rightarrow> bool) \<Rightarrow> (nat \<Rightarrow> Product \<Rightarrow> bool) \<Rightarrow> bool" where
  "keeps B I \<longleftrightarrow>
     (\<forall>n p. I (Suc n) p \<longrightarrow> I n p) \<and>
     (\<forall>n p b r. I (Suc n) p \<and> B b \<and> b \<le> quantity p \<and> 1 \<le> r \<and> r \<le> 5 \<longrightarrow> I n (purchase p b r))"

text \<open>A stock that is a non-negative \<^verbatim>\<open>int\<close>.\<close>

definition in_stock :: "Product \<Rightarrow> bool" where
  "in_stock p \<longleftrightarrow> 0 \<le> quantity p \<and> quantity p \<le> INT_MAX"

text \<open>No ledger of the store holds an item with a negative \<open>buyQty\<close>.\<close>

definition staged_nonneg :: "World \<Rightarrow> bool" where
  "staged_nonneg w \<longleftrightarrow>
     list_all (\<lambda>c. list_all (\<lambda>item. 0 \<le> buyQty item) (cartStack c)) (customers (market w))"

text \<open>An action that asks for no negative quantity.\<close>

fun nonneg_action :: "action \<Rightarrow> bool" where
  "nonneg_action (AddToCart p_id qty) \<longleftrightarrow> 0 \<le> qty"
| "nonneg_action a \<longleftrightarrow> True"

definition rating_bound :: "Product \<Rightarrow> bool" where
  "rating_bound p \<longleftrightarrow>
     0 \<le> ratingCount p \<and> real_of_int (ratingCount p) \<le> ratingSum p \<and>
     ratingSum p \<le> 5 * real_of_int (ratingCount p)"

text \<open>The bound, with room in the \<^verbatim>\<open>int\<close> \<open>ratingCount\<close> for \<open>n\<close> more ratings.\<close>

definition rating_room :: "nat \<Rightarrow> Product \<Rightarrow> bool" where
  "rating_room n p \<longleftrightarrow> rating_bound p \<and> ratingCount p + int n \<le> INT_MAX"

text \<open>Ratings that are all in 1..5, and the text of typing them, each on a line.\<close>

definition ratings_typed :: "int list \<Rightarrow> bool" where
  "ratings_typed rs \<longleftrightarrow> list_all (\<lambda>r. 1 \<le> r \<and> r \<le> 5) rs"

definition typed_text :: "int list \<Rightarrow> string" where
  "typed_text rs = concat (map (\<lambda>r. show_int r @ [CHR 0x0A]) rs)"

subsection \<open>Notions for save and load\<close>

text \<open>Text that can stand in a field: it holds neither the field separator nor a line end.\<close>

definition clean :: "string \<Rightarrow> bool" where
  "clean s \<longleftrightarrow> CHR ''|'' \<notin> set s \<and> CHR 0x0A \<notin> set s"

text \<open>
  The records that survive the files. Every number is an \<^verbatim>\<open>int\<close>, every text field is
  clean, and the last field of a seller or customer line, the e-mail, is not empty
  (\<^verbatim>\<open>getline\<close> yields no empty last segment). For a \<^verbatim>\<open>double\<close> the text that
  \<open>fmt\<close> writes is clean and \<open>stod\<close> reads it back as the same number.
\<close>

definition seller_ok :: "Seller \<Rightarrow> bool" where
  "seller_ok s \<longleftrightarrow>
     int_ok (Seller.id s) \<and> clean (Seller.name s) \<and>
     clean (Seller.email s) \<and> Seller.email s \<noteq> []"

definition customer_ok :: "Customer \<Rightarrow> bool" where
  "customer_ok c \<longleftrightarrow>
     int_ok (Customer.id c) \<and> clean (Customer.name c) \<and>
     clean (address c) \<and> clean (phone c) \<and> clean (Customer.email c) \<and> Customer.email c \<noteq> []"

definition double_ok :: "(real \<Rightarrow> string) \<Rightarrow> (string \<Rightarrow> fault + real) \<Rightarrow> real \<Rightarrow> bool" where
  "double_ok fmt stod x \<longleftrightarrow> clean (fmt x) \<and> stod (fmt x) = Inr x"

definition product_ok :: "(real \<Rightarrow> string) \<Rightarrow> (string \<Rightarrow> fault + real) \<Rightarrow> Product \<Rightarrow> bool" where
  "product_ok fmt stod p \<longleftrightarrow>
     int_ok (Product.id p) \<and> clean (Product.name p) \<and>
     clean (category p) \<and> int_ok (quantity p) \<and> int_ok (sellerId p) \<and>
     int_ok (ratingCount p) \<and> double_ok fmt stod (price p) \<and> double_ok fmt stod (ratingSum p)"

text \<open>
  A store that the four files can hold: its records are as above, the customer ids are
  distinct, and every staged item has an \<^verbatim>\<open>int\<close> as \<open>buyQty\<close> and the id of a product of
  the store.
\<close>

definition store_ok :: "(real \<Rightarrow> string) \<Rightarrow> (string \<Rightarrow> fault + real) \<Rightarrow> Marketplace \<Rightarrow> bool" where
  "store_ok fmt stod m \<longleftrightarrow>
     list_all seller_ok (sellers m) \<and> list_all customer_ok (customers m) \<and>
     list_all (product_ok fmt stod) (products m) \<and>
     distinct (map Customer.id (customers m)) \<and>
     list_all (\<lambda>c. list_all (\<lambda>item. int_ok (buyQty item) \<and>
                  Product.id (product item) \<in> set (map Product.id (products m))) (cartStack c))
       (customers m)"

text \<open>The line of a record without its \<^verbatim>\<open>endl\<close>.\<close>

definition seller_text :: "Seller \<Rightarrow> string" where
  "seller_text s = show_int (Seller.id s) @ ''|'' @ Seller.name s @ ''|'' @ Seller.email s"

definition customer_text :: "Customer \<Rightarrow> string" where
  "customer_text c =
     show_int (Customer.id c) @ ''|'' @ Customer.name c @ ''|'' @ address c @ ''|'' @ phone c @ ''|'' @
     Customer.email c"

definition product_text :: "(real \<Rightarrow> string) \<Rightarrow> Product \<Rightarrow> string" where
  "product_text fmt p =
     show_int (Product.id p) @ ''|'' @ Product.name p @ ''|'' @ fmt (price p) @ ''|'' @ category p @ ''|'' @
     show_int (quantity p) @ ''|'' @ show_int (sellerId p) @ ''|'' @ fmt (ratingSum p) @ ''|'' @
     show_int (ratingCount p)"

text \<open>The cart file as entries, a customer id with a staged item, and the line of an entry.\<close>

definition entries_of :: "Customer \<Rightarrow> (int \<times> CartItem) list" where
  "entries_of c = map (Pair (Customer.id c)) (cartStack c)"

definition entry_text :: "int \<times> CartItem \<Rightarrow> string" where
  "entry_text e =
     show_int (fst e) @ ''|'' @ show_int (Product.id (product (snd e))) @ ''|'' @
     show_int (buyQty (snd e))"

definition entry_ok :: "int \<times> CartItem \<Rightarrow> bool" where
  "entry_ok e \<longleftrightarrow> int_ok (fst e) \<and> int_ok (Product.id (product (snd e))) \<and> int_ok (buyQty (snd e))"

text \<open>
  What the loader makes of a staged item: the item with a copy of the live product, the
  first product of the store that has the item's product id.
\<close>

definition live_copy :: "Product list \<Rightarrow> CartItem \<Rightarrow> CartItem" where
  "live_copy ps item =
     (case List.find (\<lambda>p. Product.id p = Product.id (product item)) ps of
        None \<Rightarrow> item
      | Some p \<Rightarrow> item\<lparr>product := p\<rparr>)"

text \<open>One step of the cart loader on the customers, for an entry.\<close>

definition push_entry :: "Product list \<Rightarrow> int \<times> CartItem \<Rightarrow> Customer list \<Rightarrow> Customer list" where
  "push_entry ps e cs =
     (case (locate (\<lambda>c. Customer.id c = fst e) cs,
            List.find (\<lambda>p. Product.id p = Product.id (product (snd e))) ps) of
        (Some k, Some p) \<Rightarrow>
          cs[k := (cs ! k)\<lparr>cartStack := \<lparr>product = p, buyQty = buyQty (snd e)\<rparr> # cartStack (cs ! k)\<rparr>]
      | _ \<Rightarrow> cs)"

subsection \<open>Example states\<close>

definition widget :: Product where
  "widget = Product_new 1 ''Widget'' 10 ''Tools'' 5 1"

definition gadget :: Product where
  "gadget = Product_new 2 ''Gadget'' 4 ''Toys'' 1 1"

definition alice :: Customer where
  "alice = \<lparr>Customer.id = 1, name = ''Alice'', address = ''1 Main St'', phone = ''555'',
            email = ''alice@example.org'', cartStack = []\<rparr>"

definition shop :: Marketplace where
  "shop = Marketplace_init\<lparr>customers := [alice], products := [widget, gadget],
            productCounter := 3, customerCounter := 2, currentCustomerIdx := 0\<rparr>"

definition no_files :: Disk where
  "no_files = \<lparr>sellers_txt = None, customers_txt = None, products_txt = None, carts_txt = None\<rparr>"

text \<open>Alice is logged in, her ledger is empty, nothing has been typed.\<close>

definition world0 :: World where
  "world0 = \<lparr>market = shop, disk = no_files, cin = [], cout = []\<rparr>"

text \<open>A text form for the examples, whose prices and rating sums are whole numbers.\<close>

definition fmt_floor :: "real \<Rightarrow> string" where
  "fmt_floor x = show_int \<lfloor>x\<rfloor>"

text \<open>
  Alice stages three widgets twice (five are in stock), types a 7, then a 4, each with
  the Enter key, and checks out: the newer item is paid, the older one fails for stock.
\<close>

definition session1 :: "action list" where
  "session1 =
     [AddToCart 1 3, AddToCart 1 3, Typed ''7\<newline>4\<newline>'', Checkout]"

definition world1 :: World where
  "world1 =
     \<lparr>market = shop\<lparr>products := [widget\<lparr>quantity := 2, ratingSum := 4, ratingCount := 1\<rparr>, gadget]\<rparr>,
      disk = \<lparr>sellers_txt = Some [],
               customers_txt = Some ''1|Alice|1 Main St|555|alice@example.org\<newline>'',
               products_txt = Some ''1|Widget|10|Tools|2|1|4|1\<newline>2|Gadget|4|Toys|1|1|0|0\<newline>'',
               carts_txt = Some []\<rparr>,
      cin = [],
      cout = [AddedToCart 3 ''Widget'', AddedToCart 3 ''Widget'', ReceiptHeader,
              ReceiptLine ''Widget'' 3 30, RatePrompt ''Widget'', InvalidRating,
              StockError ''Widget'', TotalPaid 30, ThankYou]\<rparr>"

text \<open>
  Alice staged three widgets first and one gadget after them, and has typed the ratings
  5 and 4.
\<close>

definition world_two :: World where
  "world_two =
     \<lparr>market = shop\<lparr>customers :=
        [alice\<lparr>cartStack := [\<lparr>product = gadget, buyQty = 1\<rparr>, \<lparr>product = widget, buyQty = 3\<rparr>]\<rparr>]\<rparr>,
      disk = no_files, cin = ''5 4\<newline>'', cout = []\<rparr>"

definition world_two_done :: World where
  "world_two_done =
     \<lparr>market = shop\<lparr>products :=
        [widget\<lparr>quantity := 2, ratingSum := 4, ratingCount := 1\<rparr>,
         gadget\<lparr>quantity := 0, ratingSum := 5, ratingCount := 1\<rparr>]\<rparr>,
      disk = \<lparr>sellers_txt = Some [],
               customers_txt = Some ''1|Alice|1 Main St|555|alice@example.org\<newline>'',
               products_txt = Some ''1|Widget|10|Tools|2|1|4|1\<newline>2|Gadget|4|Toys|0|1|5|1\<newline>'',
               carts_txt = Some []\<rparr>,
      cin = [],
      cout = [ReceiptHeader, ReceiptLine ''Gadget'' 1 4, RatePrompt ''Gadget'',
              ReceiptLine ''Widget'' 3 30, RatePrompt ''Widget'', TotalPaid 34, ThankYou]\<rparr>"

text \<open>
  Alice has staged three widgets twice and typed one rating: at checkout one line is
  paid and one fails for stock.
\<close>

definition world_twice :: World where
  "world_twice =
     \<lparr>market = shop\<lparr>customers :=
        [alice\<lparr>cartStack := [\<lparr>product = widget, buyQty = 3\<rparr>, \<lparr>product = widget, buyQty = 3\<rparr>]\<rparr>]\<rparr>,
      disk = no_files, cin = ''4'', cout = []\<rparr>"

text \<open>
  \<^verbatim>\<open>std::stod\<close> on the text of a whole number, for the examples.
\<close>

definition stod_whole :: "string \<Rightarrow> fault + real" where
  "stod_whole s = (case stoi s of Inl f \<Rightarrow> Inl f | Inr i \<Rightarrow> Inr (real_of_int i))"

definition sam :: Seller where
  "sam = \<lparr>Seller.id = 1, name = ''Sam'', email = ''sam@example.org''\<rparr>"

definition bob :: Customer where
  "bob = \<lparr>Customer.id = 2, name = ''Bob'', address = ''2 Side St'', phone = ''556'',
          email = ''bob@example.org'', cartStack = []\<rparr>"

definition carol :: Customer where
  "carol = \<lparr>Customer.id = 3, name = ''Carol'', address = ''3 High St'', phone = ''557'',
            email = ''carol@example.org'', cartStack = []\<rparr>"

text \<open>
  Alice staged three widgets and then a gadget, Bob staged one widget, all while five
  widgets were in stock; since then Carol has bought three widgets and rated them 4.
\<close>

definition shop2 :: Marketplace where
  "shop2 =
     Marketplace_init
       \<lparr>sellers := [sam],
        customers :=
          [alice\<lparr>cartStack := [\<lparr>product = gadget, buyQty = 1\<rparr>, \<lparr>product = widget, buyQty = 3\<rparr>]\<rparr>,
           bob\<lparr>cartStack := [\<lparr>product = widget, buyQty = 1\<rparr>]\<rparr>,
           carol],
        products := [widget\<lparr>quantity := 2, ratingSum := 4, ratingCount := 1\<rparr>, gadget],
        productCounter := 3, sellerCounter := 2, customerCounter := 4\<rparr>"

text \<open>The store that the program has after it saved \<open>shop2\<close> and started again.\<close>

definition shop2_reloaded :: Marketplace where
  "shop2_reloaded =
     Marketplace_init
       \<lparr>sellers := [sam],
        customers :=
          [alice\<lparr>cartStack :=
             [\<lparr>product = widget\<lparr>quantity := 2, ratingSum := 4, ratingCount := 1\<rparr>, buyQty = 3\<rparr>,
              \<lparr>product = gadget, buyQty = 1\<rparr>]\<rparr>,
           bob\<lparr>cartStack :=
             [\<lparr>product = widget\<lparr>quantity := 2, ratingSum := 4, ratingCount := 1\<rparr>, buyQty = 1\<rparr>]\<rparr>,
           carol],
        products := [widget\<lparr>quantity := 2, ratingSum := 4, ratingCount := 1\<rparr>, gadget],
        productCounter := 3, sellerCounter := 2, customerCounter := 4\<rparr>"

section \<open>Digits\<close>

lemma of_char_digit_char: "0 \<le> d \<Longrightarrow> d < 10 \<Longrightarrow> (of_char (digit_char d) :: int) = 48 + d"
  by (simp add: digit_char_def)

lemma isdigit_digit_char: "0 \<le> d \<Longrightarrow> d < 10 \<Longrightarrow> isdigit (digit_char d)"
  by (simp add: isdigit_def of_char_digit_char)

lemma digit_val_digit_char: "0 \<le> d \<Longrightarrow> d < 10 \<Longrightarrow> digit_val (digit_char d) = d"
  by (simp add: digit_val_def of_char_digit_char)

lemma isdigit_plain:
  "isdigit c \<Longrightarrow> \<not> isspace c \<and> c \<noteq> CHR ''-'' \<and> c \<noteq> CHR ''+'' \<and> c \<noteq> CHR ''|'' \<and> c \<noteq> CHR 0x0A"
  by (auto simp: isdigit_def isspace_def)

section \<open>Rating average\<close>

lemma wrap_int_id: "int_ok x \<Longrightarrow> wrap_int x = x"
  by (simp add: wrap_int_def int_ok_def INT_MIN_def INT_MAX_def)




section \<open>Checkout\<close>

subsection \<open>The example runs\<close>

lemma session1_run: "run fmt_floor world0 session1 = Inr world1"
  by code_simp

lemma world_two_checkout: "processCheckout fmt_floor world_two = Inr world_two_done"
  by code_simp

subsection \<open>What one queued item does to the products\<close>

lemma rating_loop_end:
  "dropWhile isspace inp = [] \<Longrightarrow> rating_loop inp out = Inl NeverReturns"
  by (subst rating_loop.simps) simp

lemma rating_loop_accept:
  "dropWhile isspace inp \<noteq> [] \<Longrightarrow> extract_int inp = (Some r, rest) \<Longrightarrow> 1 \<le> r \<Longrightarrow> r \<le> 5 \<Longrightarrow>
   rating_loop inp out = Inr (r, rest, out)"
  by (subst rating_loop.simps) simp

lemma rating_loop_retry:
  "dropWhile isspace inp \<noteq> [] \<Longrightarrow> extract_int inp = (x, rest) \<Longrightarrow>
   x = None \<or> (\<exists>r. x = Some r \<and> \<not> (1 \<le> r \<and> r \<le> 5)) \<Longrightarrow>
   rating_loop inp out = rating_loop (ignore_line rest) (out @ [InvalidRating])"
  by (subst rating_loop.simps) auto

lemma rating_loop_range:
  "rating_loop inp out = Inr (r, inp', out') \<Longrightarrow> 1 \<le> r \<and> r \<le> 5"
proof (induction inp out rule: rating_loop.induct)
  case (1 inp out)
  show ?case
  proof (cases "dropWhile isspace inp = []")
    case True
    with "1.prems" show ?thesis by (simp add: rating_loop_end)
  next
    case False
    obtain x rest where e: "extract_int inp = (x, rest)" by (cases "extract_int inp")
    show ?thesis
    proof (cases "\<exists>k. x = Some k \<and> 1 \<le> k \<and> k \<le> 5")
      case True
      then obtain k where k: "x = Some k" "1 \<le> k" "k \<le> 5" by blast
      from "1.prems" rating_loop_accept [OF False e [unfolded k(1)] k(2,3), of out] k
      show ?thesis by simp
    next
      case no: False
      then have x: "x = None \<or> (\<exists>k. x = Some k \<and> \<not> (1 \<le> k \<and> k \<le> 5))"
        by (cases x) auto
      from "1.prems" rating_loop_retry [OF False e x, of out]
      have "rating_loop (ignore_line rest) (out @ [InvalidRating]) = Inr (r, inp', out')"
        by simp
      with "1.IH" [OF False e [symmetric]] x show ?thesis by blast
    qed
  qed
qed

lemma update_stock_pointwise:
  "update_stock item ps tot inp out = Inr (ps', tot', inp', out') \<Longrightarrow>
   list_all2 (\<lambda>p p'. p' = p \<or>
       (\<exists>r. buyQty item \<le> quantity p \<and> 1 \<le> r \<and> r \<le> 5 \<and> p' = purchase p (buyQty item) r))
     ps ps'"
proof (induction ps arbitrary: ps')
  case Nil
  then show ?case by simp
next
  case (Cons p ps)
  show ?case
  proof (cases "Product.id p = Product.id (product item)")
    case False
    with Cons.prems obtain qs where
      "update_stock item ps tot inp out = Inr (qs, tot', inp', out')" "ps' = p # qs"
      by (auto split: sum.splits)
    with Cons.IH show ?thesis by simp
  next
    case True
    note hit = this
    show ?thesis
    proof (cases "buyQty item \<le> quantity p")
      case False
      with hit Cons.prems have "ps' = p # ps" by simp
      then show ?thesis by (simp add: list_all2_refl)
    next
      case True
      with hit Cons.prems obtain r i2 o2 where
        r: "rating_loop inp
              (out @ [ReceiptLine (Product.name (product item)) (buyQty item)
                        (price (product item) * real_of_int (buyQty item)),
                      RatePrompt (Product.name p)]) = Inr (r, i2, o2)"
        and ps': "ps' = purchase p (buyQty item) r # ps"
        by (auto simp: Let_def purchase_def split: sum.splits)
      from rating_loop_range [OF r] True ps' show ?thesis
        by (auto simp: list_all2_refl)
    qed
  qed
qed

lemma update_stock_keeps:
  assumes "keeps B I" and "B (buyQty item)"
    and "update_stock item ps tot inp out = Inr (ps', tot', inp', out')"
  shows "list_all2 (\<lambda>p p'. I (Suc n) p \<longrightarrow> I n p') ps ps'"
  using update_stock_pointwise [OF assms(3)] assms(1,2)
  by (auto simp: keeps_def elim!: list_all2_mono)

lemma keeps_chain:
  "list_all2 (\<lambda>p p'. I a p \<longrightarrow> I b p') ps qs \<Longrightarrow> list_all2 (\<lambda>p p'. I b p \<longrightarrow> I c p') qs rs \<Longrightarrow>
   list_all2 (\<lambda>p p'. I a p \<longrightarrow> I c p') ps rs"
  by (auto simp: list_all2_conv_all_nth)

lemma process_queue_keeps:
  assumes "keeps B I"
  shows "list_all (\<lambda>item. B (buyQty item)) q \<Longrightarrow>
         process_queue q ps tot inp out = Inr (ps', tot', inp', out') \<Longrightarrow>
         list_all2 (\<lambda>p p'. I (length q) p \<longrightarrow> I 0 p') ps ps'"
proof (induction q arbitrary: ps tot inp out)
  case Nil
  then show ?case by (simp add: list_all2_refl)
next
  case (Cons item q)
  from Cons.prems(2) obtain ps1 t1 i1 o1 where
    one: "update_stock item ps tot inp out = Inr (ps1, t1, i1, o1)"
    and rest: "process_queue q ps1 t1 i1 o1 = Inr (ps', tot', inp', out')"
    by (auto split: sum.splits)
  from Cons.prems(1) have b: "B (buyQty item)" and bs: "list_all (\<lambda>item. B (buyQty item)) q"
    by simp_all
  from keeps_chain [OF update_stock_keeps [OF assms b one, of "length q"] Cons.IH [OF bs rest]]
  show ?case by simp
qed

lemma transfer_eq: "transfer st q = ([], q @ st)"
  by (induction st arbitrary: q) auto

lemma processCheckout_keeps:
  assumes "keeps B I" and "list_all (\<lambda>item. B (buyQty item)) (current_cart w)"
    and "processCheckout fmt w = Inr w'"
  shows "list_all2 (\<lambda>p p'. I (length (current_cart w)) p \<longrightarrow> I 0 p')
           (products (market w)) (products (market w'))"
proof (cases "current_cart w = []")
  case True
  with assms(3) have "products (market w') = products (market w)"
    by (auto simp: processCheckout_def Let_def current_cart_def split: if_splits)
  with True show ?thesis by (simp add: list_all2_refl)
next
  case False
  with assms(3) obtain ps' tot inp' out' where
    q: "process_queue (current_cart w) (products (market w)) 0 (cin w) (cout w @ [ReceiptHeader]) =
          Inr (ps', tot, inp', out')"
    and ps': "products (market w') = ps'"
    by (auto simp: processCheckout_def Let_def current_cart_def transfer_eq
        split: if_splits sum.splits)
  from process_queue_keeps [OF assms(1,2) q] ps' show ?thesis by simp
qed

subsection \<open>Checkout returns\<close>

lemma dropWhile_isspace_append:
  "list_all isspace ws \<Longrightarrow> dropWhile isspace (ws @ s) = dropWhile isspace s"
  by (induction ws) simp_all

lemma extract_int_rating:
  assumes "1 \<le> r" and "r \<le> 5"
  shows "extract_int (digit_char r # CHR 0x0A # after) = (Some r, CHR 0x0A # after)"
proof -
  from assms have d: "isdigit (digit_char r)" "digit_val (digit_char r) = r"
    by (simp_all add: isdigit_digit_char digit_val_digit_char)
  from d(1) isdigit_plain have p: "\<not> isspace (digit_char r)" "digit_char r \<noteq> CHR ''-''"
    "digit_char r \<noteq> CHR ''+''" by blast+
  have n: "\<not> isdigit (CHR 0x0A)" by (simp add: isdigit_def)
  from assms have ok: "int_ok r" by (simp add: int_ok_def INT_MIN_def INT_MAX_def)
  from d p n ok show ?thesis
    by (simp add: extract_int_def stoi_def Let_def)
qed

lemma rating_loop_typed:
  assumes "list_all isspace ws" and "1 \<le> r" and "r \<le> 5"
  shows "rating_loop (ws @ show_int r @ CHR 0x0A # after) out = Inr (r, CHR 0x0A # after, out)"
proof -
  from assms have form: "show_int r = [digit_char r]"
    by (simp add: show_int_def digits.simps [of r])
  from assms have "isdigit (digit_char r)" by (simp add: isdigit_digit_char)
  with isdigit_plain have p: "\<not> isspace (digit_char r)" by blast
  have skip: "dropWhile isspace (ws @ digit_char r # CHR 0x0A # after) = digit_char r # CHR 0x0A # after"
    using p by (simp add: dropWhile_isspace_append [OF assms(1)])
  then have "extract_int (ws @ digit_char r # CHR 0x0A # after) =
      extract_int (digit_char r # CHR 0x0A # after)"
    using p by (simp add: extract_int_def)
  with extract_int_rating [OF assms(2,3)] skip assms(2,3) show ?thesis
    unfolding form by (subst rating_loop.simps) simp
qed

lemma update_stock_returns:
  assumes "ratings_typed (r # rs)" and "list_all isspace ws"
  shows "\<exists>ps' tot' out' ws' rs'.
           update_stock item ps tot (ws @ typed_text (r # rs) @ rest) out =
             Inr (ps', tot', ws' @ typed_text rs' @ rest, out') \<and>
           list_all isspace ws' \<and> (rs' = r # rs \<or> rs' = rs)"
proof (induction ps)
  case Nil
  from assms(2) show ?case by (auto intro!: exI [of _ ws] exI [of _ "r # rs"])
next
  case (Cons p ps)
  from assms have r: "1 \<le> r" "r \<le> 5" by (simp_all add: ratings_typed_def)
  show ?case
  proof (cases "Product.id p = Product.id (product item)")
    case False
    from Cons.IH obtain ps' tot' out' ws' rs' where
      "update_stock item ps tot (ws @ typed_text (r # rs) @ rest) out =
         Inr (ps', tot', ws' @ typed_text rs' @ rest, out')"
      "list_all isspace ws'" "rs' = r # rs \<or> rs' = rs"
      by blast
    with False show ?thesis
      by (auto intro!: exI [of _ "p # ps'"] exI [of _ ws'])
  next
    case True
    show ?thesis
    proof (cases "buyQty item \<le> quantity p")
      case False
      with True assms(2) show ?thesis
        by (auto intro!: exI [of _ ws] exI [of _ "r # rs"])
    next
      case enough: True
      have form: "ws @ typed_text (r # rs) @ rest =
          ws @ show_int r @ CHR 0x0A # (typed_text rs @ rest)"
        by (simp add: typed_text_def)
      have sp: "list_all isspace [CHR 0x0A]" by (simp add: isspace_def)
      from True enough sp show ?thesis
        unfolding form
        by (auto simp: Let_def rating_loop_typed [OF assms(2) r]
            intro!: exI [of _ "[CHR 0x0A]"] exI [of _ rs])
    qed
  qed
qed

lemma process_queue_returns:
  "ratings_typed rs \<Longrightarrow> list_all isspace ws \<Longrightarrow> length q \<le> length rs \<Longrightarrow>
   \<exists>ps' tot' inp' out'.
     process_queue q ps tot (ws @ typed_text rs @ rest) out = Inr (ps', tot', inp', out')"
proof (induction q arbitrary: ps tot rs ws out)
  case Nil
  then show ?case by simp
next
  case (Cons item q)
  from Cons.prems(3) obtain r rs0 where rs: "rs = r # rs0" by (cases rs) auto
  from update_stock_returns [OF Cons.prems(1) [unfolded rs] Cons.prems(2), of item ps tot rest out]
  obtain ps' tot' out' ws' rs' where
    one: "update_stock item ps tot (ws @ typed_text (r # rs0) @ rest) out =
         Inr (ps', tot', ws' @ typed_text rs' @ rest, out')"
    and ws': "list_all isspace ws'"
    and rs': "rs' = r # rs0 \<or> rs' = rs0"
    by blast
  from rs' Cons.prems rs have t: "ratings_typed rs'" and l: "length q \<le> length rs'"
    by (auto simp: ratings_typed_def)
  from Cons.IH [OF t ws' l, of ps' tot' out'] one rs show ?case by simp
qed

text \<open>
  Checkout returns when the customer is logged in and the input starts with a valid
  rating, typed with the Enter key, for every staged item.
\<close>

lemma processCheckout_returns:
  assumes "logged_in w" and "cin w = typed_text rs @ rest" and "ratings_typed rs"
    and "length (current_cart w) \<le> length rs"
  shows "\<exists>w'. processCheckout fmt w = Inr w'"
proof -
  have "list_all isspace []" by simp
  from process_queue_returns [OF assms(3) this assms(4), of "products (market w)" 0 rest
      "cout w @ [ReceiptHeader]"]
  obtain ps' tot' inp' out' where
    "process_queue (current_cart w) (products (market w)) 0 (typed_text rs @ rest)
       (cout w @ [ReceiptHeader]) = Inr (ps', tot', inp', out')"
    by auto
  with assms(1,2) show ?thesis
    by (auto simp: processCheckout_def Let_def logged_in_def current_cart_def transfer_eq)
qed

subsection \<open>Stock\<close>

lemma keeps_in_stock: "keeps (\<lambda>b. 0 \<le> b) (\<lambda>n. in_stock)"
proof -
  have "in_stock (purchase p b r)" if "in_stock p" "0 \<le> b" "b \<le> quantity p" for p b r
  proof -
    from that have "int_ok (quantity p - b)"
      by (simp add: in_stock_def int_ok_def INT_MIN_def)
    with that show ?thesis
      by (simp add: in_stock_def purchase_def addRating_def wrap_int_id)
  qed
  then show ?thesis by (simp add: keeps_def)
qed

lemma list_all_update: "list_all P xs \<Longrightarrow> P x \<Longrightarrow> list_all P (xs[k := x])"
  by (induction xs arbitrary: k) (auto split: nat.splits)

lemma list_all_nth: "list_all P xs \<Longrightarrow> k < length xs \<Longrightarrow> P (xs ! k)"
  by (simp add: list_all_length)

lemma staged_current_cart:
  "staged_nonneg w \<Longrightarrow> logged_in w \<Longrightarrow> list_all (\<lambda>item. 0 \<le> buyQty item) (current_cart w)"
  unfolding staged_nonneg_def logged_in_def current_cart_def
  by (rule list_all_nth) (auto simp: nat_less_iff)

lemma find_for_cart_buyQty:
  "find_for_cart p_id qty ps = (Some item, evs) \<Longrightarrow> buyQty item = qty"
  by (induction ps) (auto split: if_splits)

lemma step_staged:
  assumes "staged_nonneg w" and "nonneg_action a" and "step fmt w a = Inr w'"
  shows "staged_nonneg w'"
proof (cases a)
  case (Login i)
  with assms show ?thesis by (auto simp: staged_nonneg_def split: if_splits)
next
  case (Typed ts)
  with assms show ?thesis by (auto simp: staged_nonneg_def)
next
  case (AddToCart p_id qty)
  with assms(3) have add: "addToCart fmt p_id qty w = Inr w'" by simp
  then have li: "logged_in w"
    by (auto simp: addToCart_def logged_in_def Let_def split: if_splits)
  from AddToCart assms(2) have q: "0 \<le> qty" by simp
  show ?thesis
  proof (cases "find_for_cart p_id qty (products (market w))")
    case (Pair found evs)
    show ?thesis
    proof (cases found)
      case None
      with Pair add li have "customers (market w') = customers (market w)"
        by (auto simp: addToCart_def logged_in_def Let_def)
      with assms(1) show ?thesis by (simp add: staged_nonneg_def)
    next
      case (Some item)
      with Pair find_for_cart_buyQty have b: "buyQty item = qty" by blast
      from Some Pair add li have
        "customers (market w') = (customers (market w))
           [nat (currentCustomerIdx (market w)) :=
              (customers (market w) ! nat (currentCustomerIdx (market w)))
                \<lparr>cartStack := item # current_cart w\<rparr>]"
        by (auto simp: addToCart_def logged_in_def Let_def current_cart_def)
      moreover from staged_current_cart [OF assms(1) li] b q
      have "list_all (\<lambda>item. 0 \<le> buyQty item) (item # current_cart w)" by simp
      ultimately show ?thesis
        using assms(1) by (simp add: staged_nonneg_def list_all_update)
    qed
  qed
next
  case UndoLast
  with assms(3) have undo: "undoLast fmt w = Inr w'" by simp
  then have li: "logged_in w"
    by (auto simp: undoLast_def logged_in_def Let_def split: if_splits)
  show ?thesis
  proof (cases "current_cart w")
    case Nil
    with undo li have "customers (market w') = customers (market w)"
      by (auto simp: undoLast_def logged_in_def Let_def current_cart_def)
    with assms(1) show ?thesis by (simp add: staged_nonneg_def)
  next
    case (Cons item rest)
    with undo li have
      "customers (market w') = (customers (market w))
         [nat (currentCustomerIdx (market w)) :=
            (customers (market w) ! nat (currentCustomerIdx (market w)))\<lparr>cartStack := rest\<rparr>]"
      by (auto simp: undoLast_def logged_in_def Let_def current_cart_def)
    moreover from staged_current_cart [OF assms(1) li] Cons
    have "list_all (\<lambda>item. 0 \<le> buyQty item) rest" by simp
    ultimately show ?thesis
      using assms(1) by (simp add: staged_nonneg_def list_all_update)
  qed
next
  case Checkout
  with assms(3) have co: "processCheckout fmt w = Inr w'" by simp
  then have li: "logged_in w"
    by (auto simp: processCheckout_def logged_in_def Let_def split: if_splits)
  show ?thesis
  proof (cases "current_cart w = []")
    case True
    with co li have "customers (market w') = customers (market w)"
      by (auto simp: processCheckout_def logged_in_def Let_def current_cart_def)
    with assms(1) show ?thesis by (simp add: staged_nonneg_def)
  next
    case False
    with co li have
      "customers (market w') = (customers (market w))
         [nat (currentCustomerIdx (market w)) :=
            (customers (market w) ! nat (currentCustomerIdx (market w)))\<lparr>cartStack := []\<rparr>]"
      by (auto simp: processCheckout_def logged_in_def Let_def current_cart_def transfer_eq
          split: sum.splits)
    with assms(1) show ?thesis
      by (simp add: staged_nonneg_def list_all_update)
  qed
qed

lemma addToCart_products:
  "addToCart fmt p_id qty w = Inr w' \<Longrightarrow> products (market w') = products (market w)"
  by (auto simp: addToCart_def Let_def split: if_splits option.splits prod.splits)

lemma undoLast_products:
  "undoLast fmt w = Inr w' \<Longrightarrow> products (market w') = products (market w)"
  by (auto simp: undoLast_def Let_def split: if_splits list.splits)

lemma step_in_stock:
  assumes "staged_nonneg w" and "step fmt w a = Inr w'"
  shows "list_all2 (\<lambda>p p'. in_stock p \<longrightarrow> in_stock p') (products (market w)) (products (market w'))"
proof (cases a)
  case Checkout
  with assms(2) have co: "processCheckout fmt w = Inr w'" by simp
  then have li: "logged_in w"
    by (auto simp: processCheckout_def logged_in_def Let_def split: if_splits)
  from processCheckout_keeps [OF keeps_in_stock staged_current_cart [OF assms(1) li] co]
  show ?thesis .
next
  case (AddToCart p_id qty)
  with assms show ?thesis by (simp add: addToCart_products list_all2_refl)
next
  case UndoLast
  with assms show ?thesis by (simp add: undoLast_products list_all2_refl)
next
  case (Login i)
  with assms show ?thesis by (auto simp: list_all2_refl split: if_splits)
next
  case (Typed ts)
  with assms show ?thesis by (auto simp: list_all2_refl)
qed

lemma run_in_stock:
  "run fmt w acts = Inr w' \<Longrightarrow> staged_nonneg w \<Longrightarrow> list_all nonneg_action acts \<Longrightarrow>
   list_all2 (\<lambda>p p'. in_stock p \<longrightarrow> in_stock p') (products (market w)) (products (market w'))"
proof (induction acts arbitrary: w)
  case Nil
  then show ?case by (simp add: list_all2_refl)
next
  case (Cons a acts)
  from Cons.prems(1) obtain w1 where a: "step fmt w a = Inr w1" and r: "run fmt w1 acts = Inr w'"
    by (auto split: sum.splits)
  from Cons.prems(3) have na: "nonneg_action a" and nas: "list_all nonneg_action acts" by simp_all
  from step_staged [OF Cons.prems(2) na a] have s1: "staged_nonneg w1" .
  from keeps_chain [of "\<lambda>n. in_stock" 0 0 _ _ 0, OF step_in_stock [OF Cons.prems(2) a]
      Cons.IH [OF r s1 nas]]
  show ?case .
qed

lemma negative_stock_run:
  "(case run fmt_floor world0 [AddToCart 1 (- 2147483648), Typed ''4\<newline>'', Checkout] of
      Inl f \<Rightarrow> [] | Inr w' \<Rightarrow> map quantity (products (market w'))) = [- 2147483643, 1]"
  by code_simp

text \<open>
  Claim C3, as stated, fails. Five widgets are in stock; Alice asks for \<open>- 2147483648\<close>
  of them, which is not more than the stock and is staged, types a rating and checks
  out: \<open>5 \<ge> - 2147483648\<close> lets the stock loop subtract, the subtraction wraps around,
  and the widget's quantity after checkout is negative.
\<close>

theorem C3_negative_stock_counterexample:
  "0 \<le> quantity (products (market world0) ! 0) \<and>
   (case run fmt_floor world0 [AddToCart 1 (- 2147483648), Typed ''4\<newline>'', Checkout] of
      Inl f \<Rightarrow> [] | Inr w' \<Rightarrow> map quantity (products (market w'))) = [- 2147483643, 1] \<and>
   \<not> 0 \<le> (case run fmt_floor world0 [AddToCart 1 (- 2147483648), Typed ''4\<newline>'', Checkout] of
      Inl f \<Rightarrow> [] | Inr w' \<Rightarrow> map quantity (products (market w'))) ! 0"
  unfolding negative_stock_run
  by (simp add: world0_def shop_def widget_def Product_new_def)

text \<open>
  Claim C3, amended. When no staged item and no add-to-cart request has a negative
  quantity, a product whose quantity is a non-negative \<^verbatim>\<open>int\<close> keeps a quantity of at
  least 0 through every session (any list of logins, typed input, add-to-cart, undo
  and checkout actions that returns); and the stock loop changes a product's quantity
  only when the live quantity is at least the item's \<open>buyQty\<close>, to the 32-bit
  difference of the two.
\<close>

theorem C3_stock_nonneg_requests:
  "(run fmt w acts = Inr w' \<and> staged_nonneg w \<and> list_all nonneg_action acts \<and>
      i < length (products (market w)) \<and>
      0 \<le> quantity (products (market w) ! i) \<and> quantity (products (market w) ! i) \<le> INT_MAX \<longrightarrow>
    i < length (products (market w')) \<and> 0 \<le> quantity (products (market w') ! i)) \<and>
   (update_stock item ps tot inp out = Inr (ps', tot', inp', out') \<and> j < length ps \<and>
      quantity (ps' ! j) \<noteq> quantity (ps ! j) \<longrightarrow>
    buyQty item \<le> quantity (ps ! j) \<and>
    quantity (ps' ! j) = wrap_int (quantity (ps ! j) - buyQty item))"
proof (intro conjI impI)
  assume a: "run fmt w acts = Inr w' \<and> staged_nonneg w \<and> list_all nonneg_action acts \<and>
      i < length (products (market w)) \<and>
      0 \<le> quantity (products (market w) ! i) \<and> quantity (products (market w) ! i) \<le> INT_MAX"
  then have "list_all2 (\<lambda>p p'. in_stock p \<longrightarrow> in_stock p')
      (products (market w)) (products (market w'))"
    using run_in_stock [of fmt w acts w'] by blast
  with a have "i < length (products (market w')) \<and> in_stock (products (market w') ! i)"
    by (auto simp: list_all2_conv_all_nth in_stock_def)
  then show "i < length (products (market w'))" "0 \<le> quantity (products (market w') ! i)"
    by (simp_all add: in_stock_def)
next
  assume b: "update_stock item ps tot inp out = Inr (ps', tot', inp', out') \<and> j < length ps \<and>
      quantity (ps' ! j) \<noteq> quantity (ps ! j)"
  then have "ps' ! j = ps ! j \<or>
      (\<exists>r. buyQty item \<le> quantity (ps ! j) \<and> 1 \<le> r \<and> r \<le> 5 \<and>
           ps' ! j = purchase (ps ! j) (buyQty item) r)"
    using update_stock_pointwise [of item ps tot inp out ps' tot' inp' out']
    by (simp add: list_all2_conv_all_nth)
  with b have "buyQty item \<le> quantity (ps ! j) \<and>
      quantity (ps' ! j) = wrap_int (quantity (ps ! j) - buyQty item)"
    by (auto simp: purchase_def addRating_def)
  then show "buyQty item \<le> quantity (ps ! j)"
    "quantity (ps' ! j) = wrap_int (quantity (ps ! j) - buyQty item)"
    by simp_all
qed

lemma one_widget_line:
  "update_stock \<lparr>product = widget, buyQty = 3\<rparr> [widget, gadget] 0 ''4'' [] =
     Inr ([widget\<lparr>quantity := 2, ratingSum := 4, ratingCount := 1\<rparr>, gadget], 30, [],
          [ReceiptLine ''Widget'' 3 30, RatePrompt ''Widget''])"
  by code_simp

theorem C3_stock_nonneg_requests_witness:
  "run fmt_floor world0 session1 = Inr world1 \<and> staged_nonneg world0 \<and>
   list_all nonneg_action session1 \<and> 0 < length (products (market world0)) \<and>
   0 \<le> quantity (products (market world0) ! 0) \<and>
   quantity (products (market world0) ! 0) \<le> INT_MAX \<and>
   0 < length (products (market world1)) \<and> 0 \<le> quantity (products (market world1) ! 0) \<and>
   update_stock \<lparr>product = widget, buyQty = 3\<rparr> [widget, gadget] 0 ''4'' [] =
     Inr ([widget\<lparr>quantity := 2, ratingSum := 4, ratingCount := 1\<rparr>, gadget], 30, [],
          [ReceiptLine ''Widget'' 3 30, RatePrompt ''Widget'']) \<and>
   quantity ([widget\<lparr>quantity := 2, ratingSum := 4, ratingCount := 1\<rparr>, gadget] ! 0)
     \<noteq> quantity ([widget, gadget] ! 0) \<and>
   buyQty \<lparr>product = widget, buyQty = 3\<rparr> \<le> quantity ([widget, gadget] ! 0) \<and>
   quantity ([widget\<lparr>quantity := 2, ratingSum := 4, ratingCount := 1\<rparr>, gadget] ! 0) =
     wrap_int (quantity ([widget, gadget] ! 0) - buyQty \<lparr>product = widget, buyQty = 3\<rparr>)"
proof -
  have a: "staged_nonneg world0" "list_all nonneg_action session1"
    "0 < length (products (market world0))"
    "0 \<le> quantity (products (market world0) ! 0)"
    "quantity (products (market world0) ! 0) \<le> INT_MAX"
    by (simp_all add: staged_nonneg_def session1_def world0_def shop_def alice_def widget_def
        Product_new_def Marketplace_init_def INT_MAX_def)
  have b: "(0::nat) < length [widget, gadget]"
    "quantity ([widget\<lparr>quantity := 2, ratingSum := 4, ratingCount := 1\<rparr>, gadget] ! 0)
       \<noteq> quantity ([widget, gadget] ! 0)"
    by (simp_all add: widget_def Product_new_def)
  from C3_stock_nonneg_requests [of fmt_floor world0 session1 world1 0
      "\<lparr>product = widget, buyQty = 3\<rparr>" "[widget, gadget]" 0 "''4''" "[]"
      "[widget\<lparr>quantity := 2, ratingSum := 4, ratingCount := 1\<rparr>, gadget]" 30 "[]"
      "[ReceiptLine ''Widget'' 3 30, RatePrompt ''Widget'']" 0]
    session1_run one_widget_line a b
  show ?thesis by blast
qed

subsection \<open>Ratings\<close>

lemma keeps_rating_room: "keeps (\<lambda>b. True) rating_room"
proof -
  have "rating_room n (purchase p b r)" if "rating_room (Suc n) p" "1 \<le> r" "r \<le> 5" for n p b r
  proof -
    from that(1) have "int_ok (ratingCount p + 1)"
      by (simp add: rating_room_def rating_bound_def int_ok_def INT_MIN_def)
    with that show ?thesis
      by (simp add: rating_room_def rating_bound_def purchase_def addRating_def wrap_int_id)
  qed
  moreover have "rating_room n p" if "rating_room (Suc n) p" for n p
    using that by (simp add: rating_room_def)
  ultimately show ?thesis by (simp add: keeps_def)
qed

lemma rating_bound_average:
  "rating_bound p \<Longrightarrow> 0 \<le> getAverageRating p \<and> getAverageRating p \<le> 5"
  by (auto simp: rating_bound_def getAverageRating_def divide_le_eq)

lemma full_count_checkout:
  "(case processCheckout fmt_floor
      \<lparr>market = shop\<lparr>customers := [alice\<lparr>cartStack := [\<lparr>product = gadget, buyQty = 1\<rparr>]\<rparr>],
         products := [widget, gadget\<lparr>ratingSum := 8589934588, ratingCount := 2147483647\<rparr>]\<rparr>,
       disk = no_files, cin = ''5\<newline>'', cout = []\<rparr> of
      Inl f \<Rightarrow> [] | Inr w' \<Rightarrow> map ratingCount (products (market w'))) = [0, - 2147483648]"
  by code_simp

lemma full_count_average:
  "(case processCheckout fmt_floor
      \<lparr>market = shop\<lparr>customers := [alice\<lparr>cartStack := [\<lparr>product = gadget, buyQty = 1\<rparr>]\<rparr>],
         products := [widget, gadget\<lparr>ratingSum := 8589934588, ratingCount := 2147483647\<rparr>]\<rparr>,
       disk = no_files, cin = ''5\<newline>'', cout = []\<rparr> of
      Inl f \<Rightarrow> [] | Inr w' \<Rightarrow> map (\<lambda>p. getAverageRating p < 0) (products (market w'))) =
   [False, True]"
  by code_simp

text \<open>
  Claim C10, as stated, fails. A gadget with \<open>ratingCount = 2147483647\<close> and
  \<open>ratingSum = 4 * 2147483647\<close> is within the bound; Alice buys one and rates it 5,
  the count wraps around to \<open>- 2147483648\<close>, the bound no longer holds, and the gadget's
  average rating is negative.
\<close>

theorem C10_rating_count_counterexample:
  "rating_bound (gadget\<lparr>ratingSum := 8589934588, ratingCount := 2147483647\<rparr>) \<and>
   (case processCheckout fmt_floor
      \<lparr>market = shop\<lparr>customers := [alice\<lparr>cartStack := [\<lparr>product = gadget, buyQty = 1\<rparr>]\<rparr>],
         products := [widget, gadget\<lparr>ratingSum := 8589934588, ratingCount := 2147483647\<rparr>]\<rparr>,
       disk = no_files, cin = ''5\<newline>'', cout = []\<rparr> of
      Inl f \<Rightarrow> [] | Inr w' \<Rightarrow> map ratingCount (products (market w'))) = [0, - 2147483648] \<and>
   \<not> 0 \<le> (case processCheckout fmt_floor
      \<lparr>market = shop\<lparr>customers := [alice\<lparr>cartStack := [\<lparr>product = gadget, buyQty = 1\<rparr>]\<rparr>],
         products := [widget, gadget\<lparr>ratingSum := 8589934588, ratingCount := 2147483647\<rparr>]\<rparr>,
       disk = no_files, cin = ''5\<newline>'', cout = []\<rparr> of
      Inl f \<Rightarrow> [] | Inr w' \<Rightarrow> map ratingCount (products (market w'))) ! 1 \<and>
   (case processCheckout fmt_floor
      \<lparr>market = shop\<lparr>customers := [alice\<lparr>cartStack := [\<lparr>product = gadget, buyQty = 1\<rparr>]\<rparr>],
         products := [widget, gadget\<lparr>ratingSum := 8589934588, ratingCount := 2147483647\<rparr>]\<rparr>,
       disk = no_files, cin = ''5\<newline>'', cout = []\<rparr> of
      Inl f \<Rightarrow> [] | Inr w' \<Rightarrow> map (\<lambda>p. getAverageRating p < 0) (products (market w'))) =
   [False, True]"
  unfolding full_count_checkout full_count_average
  by (simp add: rating_bound_def)

text \<open>
  Claim C10, amended. A product with \<open>0 \<le> ratingCount\<close> and
  \<open>ratingCount \<le> ratingSum \<le> 5 * ratingCount\<close> whose \<open>ratingCount\<close> leaves room in
  the \<^verbatim>\<open>int\<close> for one rating for every item of the ledger that is checked out keeps this
  bound through every checkout that returns, so its average rating stays between 0 and
  5; the rating prompt hands back only ratings \<open>r\<close> with \<open>1 \<le> r \<le> 5\<close>.
\<close>

theorem C10_rating_bound_with_room:
  "(processCheckout fmt w = Inr w' \<and> i < length (products (market w)) \<and>
      rating_bound (products (market w) ! i) \<and>
      ratingCount (products (market w) ! i) + int (length (current_cart w)) \<le> INT_MAX \<longrightarrow>
    i < length (products (market w')) \<and> rating_bound (products (market w') ! i) \<and>
    0 \<le> getAverageRating (products (market w') ! i) \<and>
    getAverageRating (products (market w') ! i) \<le> 5) \<and>
   (rating_loop inp out = Inr (r, inp', out') \<longrightarrow> 1 \<le> r \<and> r \<le> 5)"
proof (intro conjI impI)
  assume a: "processCheckout fmt w = Inr w' \<and> i < length (products (market w)) \<and>
      rating_bound (products (market w) ! i) \<and>
      ratingCount (products (market w) ! i) + int (length (current_cart w)) \<le> INT_MAX"
  have "list_all (\<lambda>item. True) (current_cart w)" by (simp add: list_all_iff)
  from processCheckout_keeps [OF keeps_rating_room this, of fmt w'] a
  have "list_all2 (\<lambda>p p'. rating_room (length (current_cart w)) p \<longrightarrow> rating_room 0 p')
      (products (market w)) (products (market w'))"
    by blast
  with a have b: "i < length (products (market w')) \<and> rating_bound (products (market w') ! i)"
    by (auto simp: list_all2_conv_all_nth rating_room_def)
  from b show "i < length (products (market w'))" "rating_bound (products (market w') ! i)"
    by simp_all
  from b rating_bound_average
  show "0 \<le> getAverageRating (products (market w') ! i)"
    "getAverageRating (products (market w') ! i) \<le> 5"
    by simp_all
next
  assume "rating_loop inp out = Inr (r, inp', out')"
  from rating_loop_range [OF this] show "1 \<le> r" "r \<le> 5" by simp_all
qed

lemma rating_loop_example:
  "rating_loop ''7\<newline>x 3\<newline>+4\<newline>'' [] =
     Inr (4, ''\<newline>'', [InvalidRating, InvalidRating])"
  by code_simp

theorem C10_rating_bound_with_room_witness:
  "processCheckout fmt_floor world_two = Inr world_two_done \<and>
   0 < length (products (market world_two)) \<and>
   rating_bound (products (market world_two) ! 0) \<and>
   ratingCount (products (market world_two) ! 0) + int (length (current_cart world_two)) \<le> INT_MAX \<and>
   0 < length (products (market world_two_done)) \<and>
   rating_bound (products (market world_two_done) ! 0) \<and>
   0 \<le> getAverageRating (products (market world_two_done) ! 0) \<and>
   getAverageRating (products (market world_two_done) ! 0) \<le> 5 \<and>
   rating_loop ''7\<newline>x 3\<newline>+4\<newline>'' [] =
     Inr (4, ''\<newline>'', [InvalidRating, InvalidRating]) \<and>
   (1::int) \<le> 4 \<and> (4::int) \<le> 5"
proof -
  have a: "0 < length (products (market world_two))"
    "rating_bound (products (market world_two) ! 0)"
    "ratingCount (products (market world_two) ! 0) + int (length (current_cart world_two))
       \<le> INT_MAX"
    by (simp_all add: world_two_def shop_def widget_def Product_new_def rating_bound_def
        current_cart_def Marketplace_init_def INT_MAX_def)
  from C10_rating_bound_with_room [of fmt_floor world_two world_two_done 0
      "''7\<newline>x 3\<newline>+4\<newline>''" "[]" 4 "''\<newline>''"
      "[InvalidRating, InvalidRating]"]
    world_two_checkout rating_loop_example a
  show ?thesis by simp
qed

subsection \<open>Insufficient stock, the empty cart, the consumed ledger\<close>

lemma queue_turn_Inr:
  "queue_turn item (Inr (ps, tot, inp, out)) = update_stock item ps tot inp out"
  by (simp add: queue_turn_def)

lemma queue_turn_Inl: "queue_turn item (Inl f) = Inl f"
  by (simp add: queue_turn_def)

lemma queue_turn_fault: "fold queue_turn q (Inl f) = Inl f"
  by (induction q) (simp_all add: queue_turn_Inl)

lemma process_queue_turns:
  "process_queue q ps tot inp out = fold queue_turn q (Inr (ps, tot, inp, out))"
proof (induction q arbitrary: ps tot inp out)
  case Nil
  show ?case by simp
next
  case (Cons item q)
  show ?case
  proof (cases "update_stock item ps tot inp out")
    case (Inl f)
    then show ?thesis by (simp add: queue_turn_Inr queue_turn_fault)
  next
    case (Inr s)
    obtain ps1 t1 i1 o1 where s: "s = (ps1, t1, i1, o1)" by (cases s) auto
    with Inr Cons.IH [of ps1 t1 i1 o1] show ?thesis by (simp add: queue_turn_Inr)
  qed
qed

lemma gadget_after_widget:
  "fold queue_turn [\<lparr>product = gadget, buyQty = 1\<rparr>]
     (Inr ([widget\<lparr>quantity := 2\<rparr>, gadget], 30, ''5'', [StockError ''Widget''])) =
   Inr ([widget\<lparr>quantity := 2\<rparr>, gadget\<lparr>quantity := 0, ratingSum := 5, ratingCount := 1\<rparr>], 34, [],
        [StockError ''Widget'', ReceiptLine ''Gadget'' 1 4, RatePrompt ''Gadget''])"
  by code_simp

text \<open>
  Claim C5. When the live product of a queued item (the first product with the item's
  id) has less stock than the item's \<open>buyQty\<close>, the stock loop prints the failure line
  and nothing else changes: the products (stock and ratings), the total and the input
  are as before. The queue loop then goes on: the result of the queue that starts with
  this item is the result of the turns of all remaining items, one after the other in
  queue order, from the state with the failure line added, and so it is the result of
  the queue loop on the remaining items from that state.
\<close>

theorem C5_insufficient_stock:
  assumes "List.find (\<lambda>p. Product.id p = Product.id (product item)) ps = Some p"
    and "quantity p < buyQty item"
  shows "update_stock item ps tot inp out =
           Inr (ps, tot, inp, out @ [StockError (Product.name (product item))]) \<and>
         process_queue (item # q) ps tot inp out =
           fold queue_turn q
             (Inr (ps, tot, inp, out @ [StockError (Product.name (product item))])) \<and>
         process_queue (item # q) ps tot inp out =
           process_queue q ps tot inp (out @ [StockError (Product.name (product item))])"
proof -
  from assms have "update_stock item ps tot inp out =
      Inr (ps, tot, inp, out @ [StockError (Product.name (product item))])"
    by (induction ps) (auto split: if_splits)
  moreover from this have "process_queue (item # q) ps tot inp out =
      process_queue q ps tot inp (out @ [StockError (Product.name (product item))])"
    by simp
  ultimately show ?thesis by (simp only: process_queue_turns simp_thms)
qed

theorem C5_insufficient_stock_witness:
  "List.find (\<lambda>p. Product.id p = Product.id (product \<lparr>product = widget, buyQty = 3\<rparr>))
     [widget\<lparr>quantity := 2\<rparr>, gadget] = Some (widget\<lparr>quantity := 2\<rparr>) \<and>
   quantity (widget\<lparr>quantity := 2\<rparr>) < buyQty \<lparr>product = widget, buyQty = 3\<rparr> \<and>
   update_stock \<lparr>product = widget, buyQty = 3\<rparr> [widget\<lparr>quantity := 2\<rparr>, gadget] 30 ''5'' [] =
     Inr ([widget\<lparr>quantity := 2\<rparr>, gadget], 30, ''5'', [StockError ''Widget'']) \<and>
   process_queue [\<lparr>product = widget, buyQty = 3\<rparr>, \<lparr>product = gadget, buyQty = 1\<rparr>]
       [widget\<lparr>quantity := 2\<rparr>, gadget] 30 ''5'' [] =
     Inr ([widget\<lparr>quantity := 2\<rparr>, gadget\<lparr>quantity := 0, ratingSum := 5, ratingCount := 1\<rparr>], 34, [],
          [StockError ''Widget'', ReceiptLine ''Gadget'' 1 4, RatePrompt ''Gadget'']) \<and>
   process_queue [\<lparr>product = gadget, buyQty = 1\<rparr>]
       [widget\<lparr>quantity := 2\<rparr>, gadget] 30 ''5'' [StockError ''Widget''] =
     Inr ([widget\<lparr>quantity := 2\<rparr>, gadget\<lparr>quantity := 0, ratingSum := 5, ratingCount := 1\<rparr>], 34, [],
          [StockError ''Widget'', ReceiptLine ''Gadget'' 1 4, RatePrompt ''Gadget''])"
proof -
  have a: "List.find (\<lambda>p. Product.id p = Product.id (product \<lparr>product = widget, buyQty = 3\<rparr>))
      [widget\<lparr>quantity := 2\<rparr>, gadget] = Some (widget\<lparr>quantity := 2\<rparr>)"
    by (simp add: widget_def Product_new_def)
  have b: "quantity (widget\<lparr>quantity := 2\<rparr>) < buyQty \<lparr>product = widget, buyQty = 3\<rparr>"
    by simp
  have n: "Product.name (product \<lparr>product = widget, buyQty = 3\<rparr>) = ''Widget''"
    by (simp add: widget_def Product_new_def)
  note c = C5_insufficient_stock [OF a b, of 30 "''5''" "[]"
      "[\<lparr>product = gadget, buyQty = 1\<rparr>]", unfolded n gadget_after_widget]
  from c have c1: "update_stock \<lparr>product = widget, buyQty = 3\<rparr> [widget\<lparr>quantity := 2\<rparr>, gadget] 30
      ''5'' [] = Inr ([widget\<lparr>quantity := 2\<rparr>, gadget], 30, ''5'', [] @ [StockError ''Widget''])"
    by (rule conjunct1)
  from c have c2: "process_queue [\<lparr>product = widget, buyQty = 3\<rparr>, \<lparr>product = gadget, buyQty = 1\<rparr>]
      [widget\<lparr>quantity := 2\<rparr>, gadget] 30 ''5'' [] =
      fold queue_turn [\<lparr>product = gadget, buyQty = 1\<rparr>]
        (Inr ([widget\<lparr>quantity := 2\<rparr>, gadget], 30, ''5'', [] @ [StockError ''Widget'']))"
    by (rule conjunct1 [OF conjunct2])
  from c have c3: "process_queue [\<lparr>product = widget, buyQty = 3\<rparr>, \<lparr>product = gadget, buyQty = 1\<rparr>]
      [widget\<lparr>quantity := 2\<rparr>, gadget] 30 ''5'' [] =
      process_queue [\<lparr>product = gadget, buyQty = 1\<rparr>]
        [widget\<lparr>quantity := 2\<rparr>, gadget] 30 ''5'' ([] @ [StockError ''Widget''])"
    by (rule conjunct2 [OF conjunct2])
  have e: "[] @ [StockError ''Widget''] = [StockError ''Widget'']" by simp
  from c1 c2 c3 a b show ?thesis
    unfolding e gadget_after_widget by (simp only: simp_thms)
qed

text \<open>
  Claim C6. Checkout for a logged-in customer whose ledger is empty returns after the
  one message that the cart is empty: the store (products, ratings, every ledger) and
  the four files are as before, no receipt is printed, and of the input only what the
  closing \<^verbatim>\<open>pause()\<close> discards has been read.
\<close>

theorem C6_empty_cart:
  assumes "logged_in w" and "current_cart w = []"
  shows "\<exists>w'. processCheckout fmt w = Inr w' \<and> market w' = market w \<and> disk w' = disk w \<and>
              cin w' = pause (cin w) \<and> cout w' = cout w @ [EmptyCartInfo]"
  using assms by (simp add: processCheckout_def Let_def logged_in_def current_cart_def)

theorem C6_empty_cart_witness:
  "logged_in (world0\<lparr>cin := ''\<newline>\<newline>4''\<rparr>) \<and> current_cart (world0\<lparr>cin := ''\<newline>\<newline>4''\<rparr>) = [] \<and>
   (\<exists>w'. processCheckout fmt_floor (world0\<lparr>cin := ''\<newline>\<newline>4''\<rparr>) = Inr w' \<and> market w' = shop \<and>
         disk w' = no_files \<and> cin w' = ''4'' \<and> cout w' = [EmptyCartInfo])"
proof -
  have a: "logged_in (world0\<lparr>cin := ''\<newline>\<newline>4''\<rparr>)"
    "current_cart (world0\<lparr>cin := ''\<newline>\<newline>4''\<rparr>) = []"
    by (simp_all add: logged_in_def current_cart_def world0_def shop_def alice_def
        Marketplace_init_def)
  from C6_empty_cart [OF a, of fmt_floor] a show ?thesis
    by (simp add: world0_def pause_def ignore_line_def)
qed

text \<open>
  Claim C9. When checkout returns for a customer whose ledger was not empty, that
  ledger is empty, whatever happened to the single items.
\<close>

theorem C9_ledger_consumed:
  assumes "processCheckout fmt w = Inr w'" and "current_cart w \<noteq> []"
  shows "current_cart w' = []"
  using assms
  by (auto simp: processCheckout_def Let_def transfer_eq current_cart_def
      split: if_splits sum.splits)

lemma world_twice_checkout:
  "processCheckout fmt_floor world_twice =
     Inr (world1\<lparr>cin := [], cout := [ReceiptHeader, ReceiptLine ''Widget'' 3 30,
            RatePrompt ''Widget'', StockError ''Widget'', TotalPaid 30, ThankYou]\<rparr>)"
  by code_simp

theorem C9_ledger_consumed_witness:
  "processCheckout fmt_floor world_twice =
     Inr (world1\<lparr>cin := [], cout := [ReceiptHeader, ReceiptLine ''Widget'' 3 30,
            RatePrompt ''Widget'', StockError ''Widget'', TotalPaid 30, ThankYou]\<rparr>) \<and>
   current_cart world_twice \<noteq> [] \<and>
   current_cart (world1\<lparr>cin := [], cout := [ReceiptHeader, ReceiptLine ''Widget'' 3 30,
            RatePrompt ''Widget'', StockError ''Widget'', TotalPaid 30, ThankYou]\<rparr>) = []"
proof -
  have a: "current_cart world_twice \<noteq> []"
    by (simp add: current_cart_def world_twice_def shop_def Marketplace_init_def)
  from C9_ledger_consumed [OF world_twice_checkout a] world_twice_checkout a
  show ?thesis by simp
qed

subsection \<open>The order of the receipt\<close>

lemma receipt_names_append [simp]:
  "receipt_names (xs @ ys) = receipt_names xs @ receipt_names ys"
  by (simp add: receipt_names_def)

lemma rating_loop_names:
  "rating_loop inp out = Inr (r, inp', out') \<Longrightarrow> receipt_names out' = receipt_names out"
proof (induction inp out rule: rating_loop.induct)
  case (1 inp out)
  show ?case
  proof (cases "dropWhile isspace inp = []")
    case True
    with "1.prems" show ?thesis by (simp add: rating_loop_end)
  next
    case False
    obtain x rest where e: "extract_int inp = (x, rest)" by (cases "extract_int inp")
    show ?thesis
    proof (cases "\<exists>k. x = Some k \<and> 1 \<le> k \<and> k \<le> 5")
      case True
      then obtain k where k: "x = Some k" "1 \<le> k" "k \<le> 5" by blast
      from "1.prems" rating_loop_accept [OF False e [unfolded k(1)] k(2,3), of out]
      show ?thesis by simp
    next
      case no: False
      then have x: "x = None \<or> (\<exists>k. x = Some k \<and> \<not> (1 \<le> k \<and> k \<le> 5))"
        by (cases x) auto
      from "1.prems" rating_loop_retry [OF False e x, of out]
      have "rating_loop (ignore_line rest) (out @ [InvalidRating]) = Inr (r, inp', out')"
        by simp
      with "1.IH" [OF False e [symmetric]] x
      have "receipt_names out' = receipt_names (out @ [InvalidRating])" by blast
      then show ?thesis by (simp add: receipt_names_def)
    qed
  qed
qed

lemma update_stock_ids:
  "update_stock item ps tot inp out = Inr (ps', tot', inp', out') \<Longrightarrow>
   map Product.id ps' = map Product.id ps"
  by (induction ps arbitrary: ps')
     (auto simp: Let_def addRating_def split: if_splits sum.splits)

lemma update_stock_names:
  "update_stock item ps tot inp out = Inr (ps', tot', inp', out') \<Longrightarrow>
   receipt_names out' = receipt_names out @
     (if Product.id (product item) \<in> set (map Product.id ps)
      then [Product.name (product item)] else [])"
proof (induction ps arbitrary: ps')
  case Nil
  then show ?case by simp
next
  case (Cons p ps)
  show ?case
  proof (cases "Product.id p = Product.id (product item)")
    case False
    with Cons.prems obtain qs where
      "update_stock item ps tot inp out = Inr (qs, tot', inp', out')"
      by (auto split: sum.splits)
    from Cons.IH [OF this] False show ?thesis by auto
  next
    case True
    with Cons.prems show ?thesis
      by (auto simp: Let_def receipt_names_def dest!: rating_loop_names split: if_splits sum.splits)
  qed
qed

lemma process_queue_names:
  "process_queue q ps tot inp out = Inr (ps', tot', inp', out') \<Longrightarrow>
   receipt_names out' = receipt_names out @
     map (\<lambda>item. Product.name (product item))
       (filter (\<lambda>item. Product.id (product item) \<in> set (map Product.id ps)) q)"
proof (induction q arbitrary: ps tot inp out)
  case Nil
  then show ?case by simp
next
  case (Cons item q)
  from Cons.prems obtain ps1 t1 i1 o1 where
    one: "update_stock item ps tot inp out = Inr (ps1, t1, i1, o1)"
    and rest: "process_queue q ps1 t1 i1 o1 = Inr (ps', tot', inp', out')"
    by (auto split: sum.splits)
  from Cons.IH [OF rest] update_stock_names [OF one] update_stock_ids [OF one]
  show ?case by simp
qed

text \<open>
  Claim C1, as stated, fails: Alice staged the widgets first and the gadget second, and
  the receipt names the gadget first. (The reversed ledger is the order in which the
  items were pushed.)
\<close>

theorem C1_arrival_order_counterexample:
  "processCheckout fmt_floor world_two = Inr world_two_done \<and> current_cart world_two \<noteq> [] \<and>
   map (\<lambda>item. Product.name (product item)) (rev (current_cart world_two)) = [''Widget'', ''Gadget''] \<and>
   receipt_names (cout world_two_done) = [''Gadget'', ''Widget''] \<and>
   receipt_names (cout world_two_done) \<noteq>
     map (\<lambda>item. Product.name (product item)) (rev (current_cart world_two))"
proof -
  have "current_cart world_two =
      [\<lparr>product = gadget, buyQty = 1\<rparr>, \<lparr>product = widget, buyQty = 3\<rparr>]"
    by (simp add: current_cart_def world_two_def shop_def Marketplace_init_def)
  moreover have "receipt_names (cout world_two_done) = [''Gadget'', ''Widget'']"
    by (simp add: world_two_done_def receipt_names_def)
  ultimately show ?thesis
    using world_two_checkout by (simp add: widget_def gadget_def Product_new_def)
qed

text \<open>
  Claim C1, amended. Checkout of a non-empty ledger prints the receipt's lines in the
  order in which the items come off the ledger, newest-pushed item first: the names on
  the lines are the names of the staged items whose product id is in the store, from
  the top of the ledger down. (The queue is first-in first-out, and it is filled by
  popping the stack.)
\<close>

theorem C1_receipt_newest_first:
  assumes "processCheckout fmt w = Inr w'" and "current_cart w \<noteq> []"
  shows "receipt_names (cout w') = receipt_names (cout w) @
           map (\<lambda>item. Product.name (product item))
             (filter (\<lambda>item. Product.id (product item) \<in> set (map Product.id (products (market w))))
                (current_cart w))"
  using assms
  by (auto simp: processCheckout_def Let_def transfer_eq current_cart_def receipt_names_def
      dest!: process_queue_names split: if_splits sum.splits)

theorem C1_receipt_newest_first_witness:
  "processCheckout fmt_floor world_two = Inr world_two_done \<and> current_cart world_two \<noteq> [] \<and>
   receipt_names (cout world_two_done) = receipt_names (cout world_two) @ [''Gadget'', ''Widget'']"
proof -
  have a: "current_cart world_two =
      [\<lparr>product = gadget, buyQty = 1\<rparr>, \<lparr>product = widget, buyQty = 3\<rparr>]"
    by (simp add: current_cart_def world_two_def shop_def Marketplace_init_def)
  then have b: "current_cart world_two \<noteq> []" by simp
  have c: "products (market world_two) = [widget, gadget]"
    by (simp add: world_two_def shop_def Marketplace_init_def)
  from C1_receipt_newest_first [OF world_two_checkout b] world_two_checkout b
  show ?thesis
    unfolding a c by (simp add: widget_def gadget_def Product_new_def)
qed

subsection \<open>Add to cart\<close>

text \<open>
  Claim C4, as stated, fails: add-to-cart with the quantity \<open>- 2\<close>, and with the quantity
  \<open>0\<close>, on Alice's empty ledger stages an item with that \<open>buyQty\<close>.
\<close>

theorem C4_positive_buyQty_counterexample:
  "\<not> (\<forall>item \<in> set (case addToCart fmt_floor 1 (- 2) world0 of
                      Inl f \<Rightarrow> [] | Inr w' \<Rightarrow> current_cart w'). 0 < buyQty item) \<and>
   (case addToCart fmt_floor 1 (- 2) world0 of Inl f \<Rightarrow> [] | Inr w' \<Rightarrow> current_cart w') =
     [\<lparr>product = widget, buyQty = - 2\<rparr>] \<and>
   (case addToCart fmt_floor 1 0 world0 of Inl f \<Rightarrow> [] | Inr w' \<Rightarrow> current_cart w') =
     [\<lparr>product = widget, buyQty = 0\<rparr>]"
  by code_simp

text \<open>
  Claim C4, amended. Add-to-cart for a logged-in customer always returns, and it stages
  an item exactly when a product with the id exists and the quantity asked for is at
  most the stock of the first such product: the staged item is a copy of that product
  with \<open>buyQty\<close> the quantity asked for, whatever its sign. So every item that
  add-to-cart stages has a \<open>buyQty\<close> of at most the quantity in its product copy.
\<close>

theorem C4_add_to_cart:
  assumes "logged_in w"
  shows "\<exists>w'. addToCart fmt p_id qty w = Inr w' \<and>
           current_cart w' =
             (case List.find (\<lambda>p. Product.id p = p_id) (products (market w)) of
                None \<Rightarrow> current_cart w
              | Some p \<Rightarrow>
                  if qty \<le> quantity p then \<lparr>product = p, buyQty = qty\<rparr> # current_cart w
                  else current_cart w)"
proof -
  have "find_for_cart p_id qty ps =
          (case List.find (\<lambda>p. Product.id p = p_id) ps of
             None \<Rightarrow> (None, [ProductNotFound])
           | Some p \<Rightarrow>
               if qty \<le> quantity p
               then (Some \<lparr>product = p, buyQty = qty\<rparr>, [AddedToCart qty (Product.name p)])
               else (None, [InsufficientStock (quantity p)]))" for ps
    by (induction ps) auto
  with assms show ?thesis
    by (auto simp: addToCart_def Let_def logged_in_def current_cart_def split: option.splits)
qed

theorem C4_add_to_cart_witness:
  "logged_in world0 \<and>
   (\<exists>w'. addToCart fmt_floor 1 (- 2) world0 = Inr w' \<and>
         current_cart w' = [\<lparr>product = widget, buyQty = - 2\<rparr>])"
proof -
  have a: "logged_in world0"
    by (simp add: logged_in_def world0_def shop_def Marketplace_init_def)
  have b: "current_cart world0 = []"
    by (simp add: current_cart_def world0_def shop_def alice_def Marketplace_init_def)
  have c: "List.find (\<lambda>p. Product.id p = 1) (products (market world0)) = Some widget"
    by (simp add: world0_def shop_def widget_def Product_new_def Marketplace_init_def)
  have d: "- 2 \<le> quantity widget"
    by (simp add: widget_def Product_new_def)
  from C4_add_to_cart [OF a, of fmt_floor 1 "- 2"] a show ?thesis
    unfolding b c using d by simp
qed



section \<open>The rating ranker\<close>

lemma fold_pq_push: "fold pq_push ps pq = rev ps @ pq"
  by (induction ps arbitrary: pq) (simp_all add: pq_push_def)

lemma pq_extract_sorted:
  "pq_extract pq temp \<Longrightarrow>
   mset temp = mset pq \<and> sorted_wrt (\<lambda>a b. getAverageRating b \<le> getAverageRating a) temp"
proof (induction rule: pq_extract.induct)
  case pq_empty
  then show ?case by simp
next
  case (pq_top x pq temp)
  then have m: "mset temp = mset pq - {#x#}" by simp
  have "getAverageRating y \<le> getAverageRating x" if "y \<in> set temp" for y
  proof -
    from that have "y \<in># mset temp" by simp
    with m have "y \<in># mset pq" by (metis in_diffD)
    with pq_top.hyps(2) show ?thesis by (auto simp: less_Product_def)
  qed
  with pq_top m show ?case by simp
qed

lemma pq_extract_total: "\<exists>temp. pq_extract pq temp"
proof (induction "length pq" arbitrary: pq)
  case 0
  then show ?case by (auto intro: pq_extract.pq_empty)
next
  case (Suc n)
  then have ne: "pq \<noteq> []" by auto
  define m where "m = Max (getAverageRating ` set pq)"
  from ne have "m \<in> getAverageRating ` set pq"
    unfolding m_def by (intro Max_in) auto
  then obtain x where x: "x \<in> set pq" "getAverageRating x = m" by auto
  have greatest: "\<forall>y \<in> set pq. \<not> less_Product x y"
    using x by (auto simp: less_Product_def m_def not_less)
  from x(1) Suc.hyps(2) have "n = length (remove1 x pq)"
    by (simp add: length_remove1)
  from Suc.hyps(1) [OF this] obtain temp where "pq_extract (remove1 x pq) temp" by blast
  with x(1) greatest show ?case by (blast intro: pq_extract.pq_top)
qed

text \<open>
  Claim C8. For every product collection \<^verbatim>\<open>showTopRatedProducts\<close> has an outcome, and
  every outcome displays a table that holds exactly the products of the store and is
  non-increasing in average rating: each product's average is at least that of every
  later product.
\<close>

theorem C8_ranking_non_increasing:
  "(\<exists>w'. showTopRatedProducts w w') \<and>
   (showTopRatedProducts w w' \<longrightarrow>
      (\<exists>temp. cout w' = cout w @ [ProductTable temp] \<and>
              mset temp = mset (products (market w)) \<and>
              sorted_wrt (\<lambda>a b. getAverageRating b \<le> getAverageRating a) temp))"
proof (intro conjI impI)
  from pq_extract_total obtain temp where
    "pq_extract (fold pq_push (products (market w)) []) temp" by blast
  then show "\<exists>w'. showTopRatedProducts w w'"
    by (blast intro: showTopRatedProducts.intros)
next
  assume "showTopRatedProducts w w'"
  then obtain temp where t: "pq_extract (fold pq_push (products (market w)) []) temp"
    and w': "w' = w\<lparr>cin := pause (cin w), cout := cout w @ [ProductTable temp]\<rparr>"
    by (auto elim: showTopRatedProducts.cases)
  from pq_extract_sorted [OF t] w'
  show "\<exists>temp. cout w' = cout w @ [ProductTable temp] \<and>
              mset temp = mset (products (market w)) \<and>
              sorted_wrt (\<lambda>a b. getAverageRating b \<le> getAverageRating a) temp"
    by (auto simp: fold_pq_push)
qed

lemma rated_products_ranked:
  "showTopRatedProducts world_two_done
     (world_two_done\<lparr>cin := pause (cin world_two_done),
        cout := cout world_two_done @
        [ProductTable [gadget\<lparr>quantity := 0, ratingSum := 5, ratingCount := 1\<rparr>,
                       widget\<lparr>quantity := 2, ratingSum := 4, ratingCount := 1\<rparr>]]\<rparr>)"
proof (rule showTopRatedProducts.intros)
  let ?w = "widget\<lparr>quantity := 2, ratingSum := 4, ratingCount := 1\<rparr>"
  let ?g = "gadget\<lparr>quantity := 0, ratingSum := 5, ratingCount := 1\<rparr>"
  have ps: "fold pq_push (products (market world_two_done)) [] = [?g, ?w]"
    by (simp add: world_two_done_def shop_def Marketplace_init_def pq_push_def)
  have "pq_extract [?w] [?w]"
    by (rule pq_extract.pq_top) (auto simp: less_Product_def intro: pq_extract.pq_empty)
  then have rest: "pq_extract (remove1 ?g [?g, ?w]) [?w]" by simp
  have greatest: "\<forall>y \<in> set [?g, ?w]. \<not> less_Product ?g y"
    by (simp add: less_Product_def getAverageRating_def)
  have "pq_extract [?g, ?w] [?g, ?w]"
    by (rule pq_extract.pq_top [OF _ greatest rest]) simp
  with ps show "pq_extract (fold pq_push (products (market world_two_done)) []) [?g, ?w]"
    by simp
qed

theorem C8_ranking_non_increasing_witness:
  "showTopRatedProducts world_two_done
     (world_two_done\<lparr>cin := pause (cin world_two_done),
        cout := cout world_two_done @
        [ProductTable [gadget\<lparr>quantity := 0, ratingSum := 5, ratingCount := 1\<rparr>,
                       widget\<lparr>quantity := 2, ratingSum := 4, ratingCount := 1\<rparr>]]\<rparr>) \<and>
   sorted_wrt (\<lambda>a b. getAverageRating b \<le> getAverageRating a)
     [gadget\<lparr>quantity := 0, ratingSum := 5, ratingCount := 1\<rparr>,
      widget\<lparr>quantity := 2, ratingSum := 4, ratingCount := 1\<rparr>] \<and>
   getAverageRating (gadget\<lparr>quantity := 0, ratingSum := 5, ratingCount := 1\<rparr>) = 5 \<and>
   getAverageRating (widget\<lparr>quantity := 2, ratingSum := 4, ratingCount := 1\<rparr>) = 4"
proof -
  let ?out = "world_two_done\<lparr>cin := pause (cin world_two_done),
        cout := cout world_two_done @
        [ProductTable [gadget\<lparr>quantity := 0, ratingSum := 5, ratingCount := 1\<rparr>,
                       widget\<lparr>quantity := 2, ratingSum := 4, ratingCount := 1\<rparr>]]\<rparr>"
  from C8_ranking_non_increasing [of world_two_done ?out] rated_products_ranked
  obtain temp where "cout ?out = cout world_two_done @ [ProductTable temp]"
    and "sorted_wrt (\<lambda>a b. getAverageRating b \<le> getAverageRating a) temp"
    by blast
  then have "sorted_wrt (\<lambda>a b. getAverageRating b \<le> getAverageRating a)
     [gadget\<lparr>quantity := 0, ratingSum := 5, ratingCount := 1\<rparr>,
      widget\<lparr>quantity := 2, ratingSum := 4, ratingCount := 1\<rparr>]"
    by simp
  with rated_products_ranked show ?thesis
    by (simp add: getAverageRating_def)
qed


section \<open>Persistence\<close>

subsection \<open>Numbers as text\<close>

lemma digits_isdigit: "0 \<le> n \<Longrightarrow> list_all isdigit (digits n)"
proof (induction n rule: digits.induct)
  case (1 n)
  show ?case
  proof (cases "n < 10")
    case True
    with "1.prems" show ?thesis
      by (subst digits.simps) (simp add: isdigit_digit_char)
  next
    case False
    with "1.prems" "1.IH" have "list_all isdigit (digits (n div 10))" by simp
    moreover have "isdigit (digit_char (n mod 10))"
      by (rule isdigit_digit_char) simp_all
    ultimately show ?thesis
      using False by (subst digits.simps) simp
  qed
qed

lemma digits_not_Nil: "digits n \<noteq> []"
  by (subst digits.simps) simp

lemma read_digits_append:
  "list_all isdigit xs \<Longrightarrow> read_digits (xs @ ys) acc = read_digits ys (read_digits xs acc)"
  by (induction xs arbitrary: acc) simp_all

lemma read_digits_digits: "0 \<le> n \<Longrightarrow> read_digits (digits n) 0 = n"
proof (induction n rule: digits.induct)
  case (1 n)
  show ?case
  proof (cases "n < 10")
    case True
    with "1.prems" show ?thesis
      by (subst digits.simps) (simp add: isdigit_digit_char digit_val_digit_char)
  next
    case False
    with "1.prems" "1.IH" have ih: "read_digits (digits (n div 10)) 0 = n div 10" by simp
    from "1.prems" False have d: "list_all isdigit (digits (n div 10))"
      by (intro digits_isdigit) simp
    have "isdigit (digit_char (n mod 10))" "digit_val (digit_char (n mod 10)) = n mod 10"
      by (simp_all add: isdigit_digit_char digit_val_digit_char)
    with ih d False show ?thesis
      by (subst digits.simps) (simp add: read_digits_append)
  qed
qed

lemma stoi_digits:
  assumes "0 \<le> n"
  shows "dropWhile isspace (digits n) = digits n"
    and "\<exists>d ds. digits n = d # ds \<and> isdigit d"
proof -
  from digits_not_Nil [of n] obtain d ds where eq: "digits n = d # ds"
    by (cases "digits n") auto
  with digits_isdigit [OF assms] have d: "isdigit d" by simp
  with eq show "\<exists>d ds. digits n = d # ds \<and> isdigit d" by simp
  from d isdigit_plain have "\<not> isspace d" by blast
  with eq show "dropWhile isspace (digits n) = digits n" by simp
qed

lemma stoi_show_int: "int_ok i \<Longrightarrow> stoi (show_int i) = Inr i"
proof (cases "i < 0")
  case False
  assume ok: "int_ok i"
  from False have n: "0 \<le> i" by simp
  from stoi_digits(2) [OF n] obtain d ds where eq: "digits i = d # ds" and d: "isdigit d"
    by blast
  from d isdigit_plain have p: "\<not> isspace d" "d \<noteq> CHR ''-''" "d \<noteq> CHR ''+''" by blast+
  from read_digits_digits [OF n] eq have "read_digits (d # ds) 0 = i" by simp
  with False ok eq d p show ?thesis
    by (simp add: stoi_def show_int_def Let_def del: read_digits.simps)
next
  case True
  assume ok: "int_ok i"
  from True have n: "0 \<le> - i" by simp
  from stoi_digits(2) [OF n] obtain d ds where eq: "digits (- i) = d # ds" and d: "isdigit d"
    by blast
  from read_digits_digits [OF n] eq have "read_digits (d # ds) 0 = - i" by simp
  with True ok eq d show ?thesis
    by (simp add: stoi_def show_int_def Let_def isspace_def del: read_digits.simps)
qed

lemma clean_show_int: "clean (show_int i)"
proof -
  have "clean (digits n)" if "0 \<le> n" for n
    using digits_isdigit [OF that] isdigit_plain
    by (auto simp: clean_def list_all_iff)
  then show ?thesis by (simp add: show_int_def clean_def)
qed

lemma show_int_not_Nil: "show_int i \<noteq> []"
  by (simp add: show_int_def digits_not_Nil)

subsection \<open>Fields and lines\<close>

lemma getline_all_more:
  "d \<notin> set s \<Longrightarrow> getline_all d (s @ d # rest) seg = (seg @ s) # getline_all d rest []"
  by (induction s arbitrary: seg) auto

lemma getline_all_end:
  "d \<notin> set s \<Longrightarrow> getline_all d s seg = (if seg @ s = [] then [] else [seg @ s])"
  by (induction s arbitrary: seg) auto

lemma getline_all_lines:
  "\<forall>l \<in> set ls. CHR 0x0A \<notin> set l \<Longrightarrow>
   getline_all (CHR 0x0A) (concat (map (\<lambda>l. l @ [CHR 0x0A]) ls)) [] = ls"
  by (induction ls) (simp_all add: getline_all_more)

lemma clean_no_bar: "clean s \<Longrightarrow> CHR ''|'' \<notin> set s"
  by (simp add: clean_def)

lemma clean_no_newline: "clean s \<Longrightarrow> CHR 0x0A \<notin> set s"
  by (simp add: clean_def)

lemma show_int_no_bar: "CHR ''|'' \<notin> set (show_int i)"
  using clean_show_int [of i] by (simp add: clean_def)

lemma show_int_no_newline: "CHR 0x0A \<notin> set (show_int i)"
  using clean_show_int [of i] by (simp add: clean_def)

lemma seller_fields:
  "seller_ok s \<Longrightarrow>
   getline_all CHR ''|'' (seller_text s) [] = [show_int (Seller.id s), Seller.name s, Seller.email s]"
  by (simp add: seller_ok_def seller_text_def getline_all_more getline_all_end
      clean_no_bar show_int_no_bar)

lemma customer_fields:
  "customer_ok c \<Longrightarrow>
   getline_all CHR ''|'' (customer_text c) [] =
     [show_int (Customer.id c), Customer.name c, address c, phone c, Customer.email c]"
  by (simp add: customer_ok_def customer_text_def getline_all_more getline_all_end
      clean_no_bar show_int_no_bar)

lemma product_fields:
  "product_ok fmt stod p \<Longrightarrow>
   getline_all CHR ''|'' (product_text fmt p) [] =
     [show_int (Product.id p), Product.name p, fmt (price p), category p, show_int (quantity p),
      show_int (sellerId p), fmt (ratingSum p), show_int (ratingCount p)]"
  by (simp add: product_ok_def double_ok_def product_text_def getline_all_more getline_all_end
      clean_no_bar show_int_no_bar show_int_not_Nil)

lemma entry_fields:
  "getline_all CHR ''|'' (entry_text e) [] =
     [show_int (fst e), show_int (Product.id (product (snd e))), show_int (buyQty (snd e))]"
  by (simp add: entry_text_def getline_all_more getline_all_end show_int_no_bar show_int_not_Nil)

subsection \<open>Loading the sellers, customers and products\<close>

lemma Seller_rebuild:
  "\<lparr>Seller.id = Seller.id s, name = Seller.name s, email = Seller.email s\<rparr> = s"
  by (cases s) simp

lemma Customer_rebuild:
  "\<lparr>Customer.id = Customer.id c, name = Customer.name c, address = address c, phone = phone c,
     email = Customer.email c, cartStack = []\<rparr> = c\<lparr>cartStack := []\<rparr>"
  by (cases c) simp

lemma load_sellers_texts:
  "list_all seller_ok ss \<Longrightarrow>
   \<exists>n. load_sellers (map seller_text ss) m = Inr (m\<lparr>sellers := sellers m @ ss, sellerCounter := n\<rparr>)"
proof (induction ss arbitrary: m)
  case Nil
  have "m = m\<lparr>sellers := sellers m, sellerCounter := sellerCounter m\<rparr>" by simp
  then show ?case by (auto intro: exI [of _ "sellerCounter m"])
next
  case (Cons s ss)
  then have ok: "seller_ok s" and rest: "list_all seller_ok ss" by simp_all
  from ok have i: "stoi (show_int (Seller.id s)) = Inr (Seller.id s)"
    by (simp_all add: seller_ok_def stoi_show_int int_ok_def)
  let ?added = "m\<lparr>sellers := sellers m @ [s]\<rparr>"
  show ?case
  proof (cases "Seller.id s \<ge> sellerCounter m")
    case True
    from Cons.IH [OF rest, of "?added\<lparr>sellerCounter := wrap_int (Seller.id s + 1)\<rparr>"] obtain k where
      "load_sellers (map seller_text ss) (?added\<lparr>sellerCounter := wrap_int (Seller.id s + 1)\<rparr>) =
         Inr (m\<lparr>sellers := sellers m @ s # ss, sellerCounter := k\<rparr>)"
      by auto
    with True i show ?thesis
      by (auto simp: seller_fields [OF ok] Let_def Seller_rebuild)
  next
    case False
    from Cons.IH [OF rest, of ?added] obtain k where
      "load_sellers (map seller_text ss) ?added =
         Inr (m\<lparr>sellers := sellers m @ s # ss, sellerCounter := k\<rparr>)"
      by auto
    with False i show ?thesis
      by (auto simp: seller_fields [OF ok] Let_def Seller_rebuild)
  qed
qed

lemma load_customers_texts:
  "list_all customer_ok cs \<Longrightarrow>
   \<exists>n. load_customers (map customer_text cs) m =
     Inr (m\<lparr>customers := customers m @ map (\<lambda>c. c\<lparr>cartStack := []\<rparr>) cs, customerCounter := n\<rparr>)"
proof (induction cs arbitrary: m)
  case Nil
  have "m = m\<lparr>customers := customers m, customerCounter := customerCounter m\<rparr>" by simp
  then show ?case by (auto intro: exI [of _ "customerCounter m"])
next
  case (Cons c cs)
  then have ok: "customer_ok c" and rest: "list_all customer_ok cs" by simp_all
  from ok have i: "stoi (show_int (Customer.id c)) = Inr (Customer.id c)"
    by (simp_all add: customer_ok_def stoi_show_int int_ok_def)
  let ?added = "m\<lparr>customers := customers m @ [c\<lparr>cartStack := []\<rparr>]\<rparr>"
  show ?case
  proof (cases "Customer.id c \<ge> customerCounter m")
    case True
    from Cons.IH [OF rest, of "?added\<lparr>customerCounter := wrap_int (Customer.id c + 1)\<rparr>"] obtain k where
      "load_customers (map customer_text cs) (?added\<lparr>customerCounter := wrap_int (Customer.id c + 1)\<rparr>) =
         Inr (m\<lparr>customers := customers m @ map (\<lambda>c. c\<lparr>cartStack := []\<rparr>) (c # cs),
                customerCounter := k\<rparr>)"
      by auto
    with True i show ?thesis
      by (auto simp: customer_fields [OF ok] Let_def Customer_rebuild)
  next
    case False
    from Cons.IH [OF rest, of ?added] obtain k where
      "load_customers (map customer_text cs) ?added =
         Inr (m\<lparr>customers := customers m @ map (\<lambda>c. c\<lparr>cartStack := []\<rparr>) (c # cs),
                customerCounter := k\<rparr>)"
      by auto
    with False i show ?thesis
      by (auto simp: customer_fields [OF ok] Let_def Customer_rebuild)
  qed
qed

lemma parse_product_fields:
  assumes "product_ok fmt stod p"
  shows "parse_product stod (Product.id p)
           [show_int (Product.id p), Product.name p, fmt (price p), category p,
            show_int (quantity p), show_int (sellerId p), fmt (ratingSum p),
            show_int (ratingCount p)] = Inr p"
  using assms
  by (simp add: parse_product_def product_ok_def double_ok_def stoi_show_int)

lemma load_products_texts:
  "list_all (product_ok fmt stod) ps \<Longrightarrow>
   \<exists>n. load_products stod (map (product_text fmt) ps) m =
     Inr (m\<lparr>products := products m @ ps, productCounter := n\<rparr>)"
proof (induction ps arbitrary: m)
  case Nil
  have "m = m\<lparr>products := products m, productCounter := productCounter m\<rparr>" by simp
  then show ?case by (auto intro: exI [of _ "productCounter m"])
next
  case (Cons p ps)
  then have ok: "product_ok fmt stod p" and rest: "list_all (product_ok fmt stod) ps" by simp_all
  from ok have i: "stoi (show_int (Product.id p)) = Inr (Product.id p)"
    by (simp_all add: product_ok_def stoi_show_int int_ok_def)
  let ?added = "m\<lparr>products := products m @ [p]\<rparr>"
  show ?case
  proof (cases "Product.id p \<ge> productCounter m")
    case True
    from Cons.IH [OF rest, of "?added\<lparr>productCounter := wrap_int (Product.id p + 1)\<rparr>"] obtain k where
      "load_products stod (map (product_text fmt) ps) (?added\<lparr>productCounter := wrap_int (Product.id p + 1)\<rparr>) =
         Inr (m\<lparr>products := products m @ p # ps, productCounter := k\<rparr>)"
      by auto
    with True i show ?thesis
      by (auto simp: product_fields [OF ok] parse_product_fields [OF ok] Let_def)
  next
    case False
    from Cons.IH [OF rest, of ?added] obtain k where
      "load_products stod (map (product_text fmt) ps) ?added =
         Inr (m\<lparr>products := products m @ p # ps, productCounter := k\<rparr>)"
      by auto
    with False i show ?thesis
      by (auto simp: product_fields [OF ok] parse_product_fields [OF ok] Let_def)
  qed
qed

subsection \<open>Loading the carts\<close>

lemma cart_lines_texts:
  "cart_lines c_id st = concat (map (\<lambda>l. l @ [CHR 0x0A]) (map entry_text (map (Pair c_id) st)))"
  by (induction st) (simp_all add: entry_text_def)

lemma load_carts_texts:
  "list_all entry_ok es \<Longrightarrow>
   load_carts (map entry_text es) m =
     Inr (m\<lparr>customers := fold (push_entry (products m)) es (customers m)\<rparr>)"
proof (induction es arbitrary: m)
  case Nil
  then show ?case by simp
next
  case (Cons e es)
  then have ok: "entry_ok e" and rest: "list_all entry_ok es" by simp_all
  from ok have i:
    "stoi (show_int (fst e)) = Inr (fst e)"
    "stoi (show_int (Product.id (product (snd e)))) = Inr (Product.id (product (snd e)))"
    "stoi (show_int (buyQty (snd e))) = Inr (buyQty (snd e))"
    by (simp_all add: entry_ok_def stoi_show_int)
  have same: "m\<lparr>customers := customers m\<rparr> = m" by simp
  have "load_carts (map entry_text (e # es)) m =
      load_carts (map entry_text es) (m\<lparr>customers := push_entry (products m) e (customers m)\<rparr>)"
    using i by (auto simp: entry_fields Let_def push_entry_def same split: option.splits)
  also have "\<dots> = Inr (m\<lparr>customers := fold (push_entry (products m)) (e # es) (customers m)\<rparr>)"
    by (simp add: Cons.IH [OF rest])
  finally show ?case .
qed

lemma locate_Some:
  "locate P xs = Some k \<Longrightarrow> k < length xs \<and> P (xs ! k)"
  by (induction xs arbitrary: k) (auto split: if_splits)

lemma locate_exists: "\<exists>x \<in> set xs. P x \<Longrightarrow> \<exists>k. locate P xs = Some k"
  by (induction xs) auto

lemma update_distinct_key:
  assumes "distinct (map f xs)" and "k < length xs"
  shows "xs[k := g (xs ! k)] = map (\<lambda>x. if f x = f (xs ! k) then g x else x) xs"
proof (rule nth_equalityI)
  show "length (xs[k := g (xs ! k)]) = length (map (\<lambda>x. if f x = f (xs ! k) then g x else x) xs)"
    by simp
next
  fix j
  assume "j < length (xs[k := g (xs ! k)])"
  then have j: "j < length xs" by simp
  from assms j have "f (xs ! j) = f (xs ! k) \<longleftrightarrow> j = k"
    using nth_eq_iff_index_eq [of "map f xs" j k] by simp
  with j assms(2)
  show "xs[k := g (xs ! k)] ! j = map (\<lambda>x. if f x = f (xs ! k) then g x else x) xs ! j"
    by (auto simp: nth_list_update)
qed

lemma push_entry_map:
  assumes "distinct (map Customer.id cs)" and "fst e \<in> Customer.id ` set cs"
    and "List.find (\<lambda>p. Product.id p = Product.id (product (snd e))) ps = Some p"
  shows "push_entry ps e cs =
           map (\<lambda>c. if Customer.id c = fst e
                     then c\<lparr>cartStack := live_copy ps (snd e) # cartStack c\<rparr> else c) cs"
proof -
  from assms(2) have "\<exists>c \<in> set cs. Customer.id c = fst e" by auto
  from locate_exists [of cs "\<lambda>c. Customer.id c = fst e", OF this]
  obtain k where k: "locate (\<lambda>c. Customer.id c = fst e) cs = Some k" by blast
  from locate_Some [OF k] have kl: "k < length cs" and kid: "Customer.id (cs ! k) = fst e"
    by simp_all
  have lc: "live_copy ps (snd e) = \<lparr>product = p, buyQty = buyQty (snd e)\<rparr>"
    using assms(3) by (cases "snd e") (simp add: live_copy_def)
  from update_distinct_key [OF assms(1) kl,
      of "\<lambda>c. c\<lparr>cartStack := live_copy ps (snd e) # cartStack c\<rparr>"] kid k assms(3) lc
  show ?thesis by (simp add: push_entry_def)
qed

lemma fold_push_entry:
  assumes "\<forall>e \<in> set es. fst e \<in> ids \<and>
             (\<exists>p. List.find (\<lambda>p. Product.id p = Product.id (product (snd e))) ps = Some p)"
  shows "distinct (map Customer.id cs) \<Longrightarrow> Customer.id ` set cs = ids \<Longrightarrow>
         fold (push_entry ps) es cs =
           map (\<lambda>c. c\<lparr>cartStack :=
                 rev (map (\<lambda>e. live_copy ps (snd e)) (filter (\<lambda>e. fst e = Customer.id c) es)) @
                 cartStack c\<rparr>) cs"
  using assms
proof (induction es arbitrary: cs)
  case Nil
  then show ?case by (simp add: map_idI)
next
  case (Cons e es)
  from Cons.prems obtain p where
    p: "List.find (\<lambda>p. Product.id p = Product.id (product (snd e))) ps = Some p"
    and e: "fst e \<in> Customer.id ` set cs"
    by auto
  let ?pushed = "map (\<lambda>c. if Customer.id c = fst e
                     then c\<lparr>cartStack := live_copy ps (snd e) # cartStack c\<rparr> else c) cs"
  have step: "push_entry ps e cs = ?pushed"
    by (rule push_entry_map [OF Cons.prems(1) e p])
  have ids1: "map Customer.id ?pushed = map Customer.id cs"
    by (induction cs) auto
  have d1: "distinct (map Customer.id ?pushed)"
    unfolding ids1 by (rule Cons.prems(1))
  have s1: "Customer.id ` set ?pushed = ids"
    using arg_cong [OF ids1, of set] Cons.prems(2) by (simp only: set_map)
  from Cons.prems(3) have rest: "\<forall>e \<in> set es. fst e \<in> ids \<and>
      (\<exists>p. List.find (\<lambda>p. Product.id p = Product.id (product (snd e))) ps = Some p)"
    by simp
  from Cons.IH [OF d1 s1 rest] step show ?case
    by (auto simp: comp_def)
qed

lemma filter_entries:
  "distinct (map Customer.id cs) \<Longrightarrow> c \<in> set cs \<Longrightarrow>
   filter (\<lambda>e. fst e = Customer.id c) (concat (map entries_of cs)) = entries_of c"
proof (induction cs)
  case Nil
  then show ?case by simp
next
  case (Cons c0 cs)
  have none: "filter (\<lambda>e. fst e = i) (concat (map entries_of xs)) = []"
    if "i \<notin> Customer.id ` set xs" for i xs
    using that by (induction xs) (auto simp: entries_of_def)
  have all: "filter (\<lambda>e. fst e = Customer.id x) (entries_of x) = entries_of x" for x
    by (simp add: entries_of_def)
  have other: "filter (\<lambda>e. fst e = i) (entries_of x) = []" if "Customer.id x \<noteq> i" for i x
    using that by (auto simp: entries_of_def)
  show ?case
  proof (cases "c = c0")
    case True
    with Cons.prems(1) have "Customer.id c \<notin> Customer.id ` set cs" by simp
    with True show ?thesis by (simp add: none all)
  next
    case False
    with Cons.prems have c: "c \<in> set cs" and d: "distinct (map Customer.id cs)" by simp_all
    with Cons.prems(1) have "Customer.id c0 \<noteq> Customer.id c" by auto
    with Cons.IH [OF d c] show ?thesis by (simp add: other)
  qed
qed

subsection \<open>Save, then load\<close>

lemma seller_text_line: "seller_ok s \<Longrightarrow> CHR 0x0A \<notin> set (seller_text s)"
  by (simp add: seller_ok_def seller_text_def clean_no_newline show_int_no_newline)

lemma customer_text_line: "customer_ok c \<Longrightarrow> CHR 0x0A \<notin> set (customer_text c)"
  by (simp add: customer_ok_def customer_text_def clean_no_newline show_int_no_newline)

lemma product_text_line: "product_ok fmt stod p \<Longrightarrow> CHR 0x0A \<notin> set (product_text fmt p)"
  by (simp add: product_ok_def double_ok_def product_text_def clean_no_newline show_int_no_newline)

lemma entry_text_line: "CHR 0x0A \<notin> set (entry_text e)"
  by (simp add: entry_text_def show_int_no_newline)

lemma saved_files:
  "sellers_txt (saveData fmt m) =
     Some (concat (map (\<lambda>l. l @ [CHR 0x0A]) (map seller_text (sellers m))))"
  "customers_txt (saveData fmt m) =
     Some (concat (map (\<lambda>l. l @ [CHR 0x0A]) (map customer_text (customers m))))"
  "products_txt (saveData fmt m) =
     Some (concat (map (\<lambda>l. l @ [CHR 0x0A]) (map (product_text fmt) (products m))))"
  "carts_txt (saveData fmt m) =
     Some (concat (map (\<lambda>l. l @ [CHR 0x0A]) (map entry_text (concat (map entries_of (customers m))))))"
proof -
  have lines: "seller_line = (\<lambda>s. seller_text s @ [CHR 0x0A])"
    "customer_line = (\<lambda>c. customer_text c @ [CHR 0x0A])"
    "product_line fmt = (\<lambda>p. product_text fmt p @ [CHR 0x0A])"
    by (simp_all add: fun_eq_iff seller_line_def seller_text_def customer_line_def
        customer_text_def product_line_def product_text_def)
  show "sellers_txt (saveData fmt m) =
     Some (concat (map (\<lambda>l. l @ [CHR 0x0A]) (map seller_text (sellers m))))"
    by (simp add: saveData_def lines comp_def)
  show "customers_txt (saveData fmt m) =
     Some (concat (map (\<lambda>l. l @ [CHR 0x0A]) (map customer_text (customers m))))"
    by (simp add: saveData_def lines comp_def)
  show "products_txt (saveData fmt m) =
     Some (concat (map (\<lambda>l. l @ [CHR 0x0A]) (map (product_text fmt) (products m))))"
    by (simp add: saveData_def lines comp_def)
  have "concat (map (\<lambda>c. cart_lines (Customer.id c) (cartStack c)) cs) =
      concat (map (\<lambda>l. l @ [CHR 0x0A]) (map entry_text (concat (map entries_of cs))))" for cs
    by (induction cs) (simp_all add: cart_lines_texts entries_of_def)
  then show "carts_txt (saveData fmt m) =
     Some (concat (map (\<lambda>l. l @ [CHR 0x0A]) (map entry_text (concat (map entries_of (customers m))))))"
    by (simp add: saveData_def)
qed

lemma load_saved_lines:
  "\<forall>l \<in> set ls. CHR 0x0A \<notin> set l \<Longrightarrow>
   load_file (Some (concat (map (\<lambda>l. l @ [CHR 0x0A]) ls))) loader m = loader ls m"
  by (simp add: load_file_def getline_all_lines)

lemma store_entries_ok:
  assumes "store_ok fmt stod m"
  shows "list_all entry_ok (concat (map entries_of (customers m)))"
proof -
  have "entry_ok e" if "e \<in> set (concat (map entries_of (customers m)))" for e
  proof -
    from that obtain c where c: "c \<in> set (customers m)" and e: "e \<in> set (entries_of c)" by auto
    from e obtain item where item: "item \<in> set (cartStack c)" and eq: "e = (Customer.id c, item)"
      by (auto simp: entries_of_def)
    from assms c have cid: "int_ok (Customer.id c)"
      by (auto simp: store_ok_def list_all_iff customer_ok_def)
    from assms c item have q: "int_ok (buyQty item)"
      and "Product.id (product item) \<in> set (map Product.id (products m))"
      by (auto simp: store_ok_def list_all_iff)
    then obtain p where "p \<in> set (products m)" "Product.id p = Product.id (product item)"
      by auto
    with assms have "int_ok (Product.id (product item))"
      by (auto simp: store_ok_def list_all_iff product_ok_def)
    with cid q eq show ?thesis by (simp add: entry_ok_def)
  qed
  then show ?thesis by (simp add: list_all_iff)
qed

lemma find_Some_if_id:
  "i \<in> set (map Product.id ps) \<Longrightarrow> \<exists>p. List.find (\<lambda>p. Product.id p = i) ps = Some p"
  by (induction ps) auto

lemma reload_customers:
  assumes "store_ok fmt stod m"
  shows "fold (push_entry (products m)) (concat (map entries_of (customers m)))
           (map (\<lambda>c. c\<lparr>cartStack := []\<rparr>) (customers m)) =
         map (\<lambda>c. c\<lparr>cartStack := rev (map (live_copy (products m)) (cartStack c))\<rparr>) (customers m)"
proof -
  let ?cs = "customers m" and ?ps = "products m"
  let ?es = "concat (map entries_of ?cs)"
  let ?bare = "map (\<lambda>c. c\<lparr>cartStack := []\<rparr>) ?cs"
  have ids0: "map Customer.id ?bare = map Customer.id ?cs" by simp
  from assms have d: "distinct (map Customer.id ?cs)"
    unfolding store_ok_def by blast
  have d0: "distinct (map Customer.id ?bare)"
    unfolding ids0 by (rule d)
  have s0: "Customer.id ` set ?bare = Customer.id ` set ?cs"
    using arg_cong [OF ids0, of set] by (simp only: set_map)
  have es: "\<forall>e \<in> set ?es. fst e \<in> Customer.id ` set ?cs \<and>
      (\<exists>p. List.find (\<lambda>p. Product.id p = Product.id (product (snd e))) ?ps = Some p)"
  proof
    fix e assume "e \<in> set ?es"
    then obtain c item where c: "c \<in> set ?cs" and item: "item \<in> set (cartStack c)"
      and eq: "e = (Customer.id c, item)"
      by (auto simp: entries_of_def)
    from assms c item have "Product.id (product item) \<in> set (map Product.id ?ps)"
      by (auto simp: store_ok_def list_all_iff)
    from find_Some_if_id [OF this] c eq
    show "fst e \<in> Customer.id ` set ?cs \<and>
      (\<exists>p. List.find (\<lambda>p. Product.id p = Product.id (product (snd e))) ?ps = Some p)"
      by auto
  qed
  have "fold (push_entry ?ps) ?es ?bare =
      map (\<lambda>c. c\<lparr>cartStack :=
             rev (map (\<lambda>e. live_copy ?ps (snd e)) (filter (\<lambda>e. fst e = Customer.id c) ?es)) @
             cartStack c\<rparr>) ?bare"
    by (rule fold_push_entry [OF es d0 s0])
  also have "\<dots> = map (\<lambda>c. c\<lparr>cartStack := rev (map (live_copy ?ps) (cartStack c))\<rparr>) ?cs"
  proof -
    have "rev (map (\<lambda>e. live_copy ?ps (snd e)) (filter (\<lambda>e. fst e = Customer.id c) ?es)) =
        rev (map (live_copy ?ps) (cartStack c))" if "c \<in> set ?cs" for c
      using filter_entries [OF d that] by (simp add: entries_of_def comp_def)
    then show ?thesis by (simp add: comp_def)
  qed
  finally show ?thesis .
qed

lemma load_saved_exact:
  assumes "store_ok fmt stod m"
  shows "\<exists>n1 n2 n3. loadData stod (saveData fmt m) Marketplace_init =
           Inr (Marketplace_init
                 \<lparr>sellers := sellers m,
                  customers := map (\<lambda>c. c\<lparr>cartStack := rev (map (live_copy (products m)) (cartStack c))\<rparr>)
                                 (customers m),
                  products := products m,
                  sellerCounter := n1, customerCounter := n2, productCounter := n3\<rparr>)"
proof -
  from assms have ss: "list_all seller_ok (sellers m)" and cs: "list_all customer_ok (customers m)"
    and ps: "list_all (product_ok fmt stod) (products m)"
    by (simp_all add: store_ok_def)
  from ss have l1: "\<forall>l \<in> set (map seller_text (sellers m)). CHR 0x0A \<notin> set l"
    by (auto simp: list_all_iff seller_text_line)
  from cs have l2: "\<forall>l \<in> set (map customer_text (customers m)). CHR 0x0A \<notin> set l"
    by (auto simp: list_all_iff customer_text_line)
  from ps have l3: "\<forall>l \<in> set (map (product_text fmt) (products m)). CHR 0x0A \<notin> set l"
    by (auto simp: list_all_iff product_text_line)
  have l4: "\<forall>l \<in> set (map entry_text (concat (map entries_of (customers m)))). CHR 0x0A \<notin> set l"
    by (auto simp: entry_text_line)
  let ?init = Marketplace_init
  from load_sellers_texts [OF ss, of ?init] obtain n1 where
    s1: "load_sellers (map seller_text (sellers m)) ?init =
          Inr (?init\<lparr>sellers := sellers ?init @ sellers m, sellerCounter := n1\<rparr>)" by blast
  let ?first = "?init\<lparr>sellers := sellers ?init @ sellers m, sellerCounter := n1\<rparr>"
  from load_customers_texts [OF cs, of ?first] obtain n2 where
    s2: "load_customers (map customer_text (customers m)) ?first =
          Inr (?first\<lparr>customers := customers ?first @ map (\<lambda>c. c\<lparr>cartStack := []\<rparr>) (customers m),
                    customerCounter := n2\<rparr>)" by blast
  let ?second = "?first\<lparr>customers := customers ?first @ map (\<lambda>c. c\<lparr>cartStack := []\<rparr>) (customers m),
                    customerCounter := n2\<rparr>"
  from load_products_texts [OF ps, of ?second] obtain n3 where
    s3: "load_products stod (map (product_text fmt) (products m)) ?second =
          Inr (?second\<lparr>products := products ?second @ products m, productCounter := n3\<rparr>)" by blast
  let ?third = "?second\<lparr>products := products ?second @ products m, productCounter := n3\<rparr>"
  have p3: "products ?third = products m" and c3: "customers ?third = map (\<lambda>c. c\<lparr>cartStack := []\<rparr>) (customers m)"
    by (simp_all add: Marketplace_init_def)
  from load_carts_texts [OF store_entries_ok [OF assms], of ?third]
  have s4: "load_carts (map entry_text (concat (map entries_of (customers m)))) ?third =
      Inr (?third\<lparr>customers := map (\<lambda>c. c\<lparr>cartStack := rev (map (live_copy (products m)) (cartStack c))\<rparr>)
                                 (customers m)\<rparr>)"
    unfolding p3 c3 by (simp only: reload_customers [OF assms])
  have "loadData stod (saveData fmt m) ?init =
      Inr (?third\<lparr>customers := map (\<lambda>c. c\<lparr>cartStack := rev (map (live_copy (products m)) (cartStack c))\<rparr>)
                                 (customers m)\<rparr>)"
    unfolding loadData_def saved_files
    by (simp only: load_saved_lines [OF l1] load_saved_lines [OF l2] load_saved_lines [OF l3]
        load_saved_lines [OF l4] s1 s2 s3 s4 sum.case)
  then show ?thesis
    by (auto simp: Marketplace_init_def)
qed

lemma shop2_reload:
  "loadData stod_whole (saveData fmt_floor shop2) Marketplace_init = Inr shop2_reloaded"
  by code_simp

lemma shop2_ok: "store_ok fmt_floor stod_whole shop2"
  by code_simp

text \<open>
  Claim C2, as stated, fails. After save and load of \<open>shop2\<close> the customers are not the
  same: Bob's staged widget was a copy with five in stock and comes back as a copy of
  the live widget, with two in stock and a rating (the cart file holds only ids); and
  Alice's ledger, gadget on top, comes back with the widget on top.
\<close>

theorem C2_round_trip_counterexample:
  "loadData stod_whole (saveData fmt_floor shop2) Marketplace_init = Inr shop2_reloaded \<and>
   customers shop2_reloaded \<noteq> customers shop2 \<and>
   cartStack (customers shop2 ! 1) = [\<lparr>product = widget, buyQty = 1\<rparr>] \<and>
   cartStack (customers shop2_reloaded ! 1) =
     [\<lparr>product = widget\<lparr>quantity := 2, ratingSum := 4, ratingCount := 1\<rparr>, buyQty = 1\<rparr>] \<and>
   quantity widget = 5 \<and>
   map (\<lambda>item. Product.name (product item)) (cartStack (customers shop2 ! 0)) =
     [''Gadget'', ''Widget''] \<and>
   map (\<lambda>item. Product.name (product item)) (cartStack (customers shop2_reloaded ! 0)) =
     [''Widget'', ''Gadget'']"
  using shop2_reload
  by (simp add: shop2_def shop2_reloaded_def Marketplace_init_def alice_def bob_def widget_def
      gadget_def Product_new_def)

text \<open>
  Claim C2, amended. For a store that the files can hold (\<open>store_ok\<close>), saving and then
  loading into a fresh store succeeds and gives back the same sellers, the same
  products and customers with the same fields; every customer's ledger comes back
  with the same staged items, each as a copy of the live product with its product id
  in place of the copy taken when it was staged. The statement compares the ledgers as
  multisets and says nothing about their order.
\<close>

theorem C2_save_then_load:
  assumes "store_ok fmt stod m"
  shows "\<exists>m'. loadData stod (saveData fmt m) Marketplace_init = Inr m' \<and>
           sellers m' = sellers m \<and> products m' = products m \<and>
           list_all2 (\<lambda>c' c. c'\<lparr>cartStack := []\<rparr> = c\<lparr>cartStack := []\<rparr> \<and>
                        mset (cartStack c') = mset (map (live_copy (products m)) (cartStack c)))
             (customers m') (customers m)"
proof -
  from load_saved_exact [OF assms] obtain n1 n2 n3 where
    "loadData stod (saveData fmt m) Marketplace_init =
       Inr (Marketplace_init
             \<lparr>sellers := sellers m,
              customers := map (\<lambda>c. c\<lparr>cartStack := rev (map (live_copy (products m)) (cartStack c))\<rparr>)
                             (customers m),
              products := products m,
              sellerCounter := n1, customerCounter := n2, productCounter := n3\<rparr>)"
    by blast
  then show ?thesis
    by (simp add: list_all2_map1 list_all2_refl)
qed

theorem C2_save_then_load_witness:
  "store_ok fmt_floor stod_whole shop2 \<and>
   loadData stod_whole (saveData fmt_floor shop2) Marketplace_init = Inr shop2_reloaded \<and>
   sellers shop2_reloaded = sellers shop2 \<and> products shop2_reloaded = products shop2 \<and>
   list_all2 (\<lambda>c' c. c'\<lparr>cartStack := []\<rparr> = c\<lparr>cartStack := []\<rparr> \<and>
                mset (cartStack c') = mset (map (live_copy (products shop2)) (cartStack c)))
     (customers shop2_reloaded) (customers shop2)"
  using C2_save_then_load [OF shop2_ok] shop2_ok shop2_reload by simp

end
